theory Spec2Isabelle
  imports Main
begin

section \<open>JavaScript strings\<close>

text \<open>
  A JavaScript string is modelled as a \<^typ>\<open>string\<close>: a list of code units, each below 256
  (the Latin-1 range, which holds every character an RFC 5322 header line is made of).
  The string methods the sources call are written out on that type.
\<close>

definition CR :: char where
  "CR = CHR 0x0D"

definition LF :: char where
  "LF = CHR 0x0A"

definition TAB :: char where
  "TAB = CHR 0x09"

definition CRLF :: string where
  "CRLF = [CR, LF]"

text \<open>The regular expression class \<open>[ \t]\<close>.\<close>

definition isWsp :: "char \<Rightarrow> bool" where
  "isWsp c = (c = CHR '' '' \<or> c = CHR 0x09)"

text \<open>
  What \<open>String.prototype.trim\<close> strips and the class \<open>\s\<close> matches, among the code units
  below 256: TAB, LF, VT, FF, CR, SP and NBSP.
\<close>

definition isSpace :: "char \<Rightarrow> bool" where
  "isSpace c = (c = CHR 0x09 \<or> c = CHR 0x0A \<or> c = CHR 0x0B \<or> c = CHR 0x0C \<or> c = CHR 0x0D
     \<or> c = CHR '' '' \<or> c = CHR 0xA0)"

text \<open>The class \<open>\w\<close> (no unicode flag): \<open>[A-Za-z0-9_]\<close>.\<close>

definition isWordChar :: "char \<Rightarrow> bool" where
  "isWordChar c = (let n = (of_char c :: nat) in
     (65 \<le> n \<and> n \<le> 90) \<or> (97 \<le> n \<and> n \<le> 122) \<or> (48 \<le> n \<and> n \<le> 57) \<or> n = 95)"

text \<open>
  \<open>toLowerCase\<close> on one code unit below 256: \<open>A\<close>-\<open>Z\<close> and the Latin-1 capitals
  (0xC0-0xDE but the multiplication sign 0xD7) move up by 32, all else stays.
\<close>

definition lowerChar :: "char \<Rightarrow> char" where
  "lowerChar c = (let n = (of_char c :: nat) in
     if (65 \<le> n \<and> n \<le> 90) \<or> (192 \<le> n \<and> n \<le> 222 \<and> n \<noteq> 215) then char_of (n + 32) else c)"

definition toLowerCase :: "string \<Rightarrow> string" where
  "toLowerCase s = map lowerChar s"

definition trim :: "string \<Rightarrow> string" where
  "trim s = rev (dropWhile isSpace (rev (dropWhile isSpace s)))"

text \<open>\<open>s.startsWith(p)\<close>.\<close>

fun startsWith :: "string \<Rightarrow> string \<Rightarrow> bool" where
  "startsWith s [] = True"
| "startsWith [] (p # ps) = False"
| "startsWith (c # cs) (p # ps) = (c = p \<and> startsWith cs ps)"

text \<open>\<open>s.endsWith(p)\<close>.\<close>

definition endsWith :: "string \<Rightarrow> string \<Rightarrow> bool" where
  "endsWith s p = startsWith (rev s) (rev p)"

text \<open>\<open>s.includes(sub)\<close>: \<open>sub\<close> occurs in \<open>s\<close> as a contiguous substring.\<close>

fun includesStr :: "string \<Rightarrow> string \<Rightarrow> bool" where
  "includesStr [] sub = (sub = [])"
| "includesStr (c # cs) sub = (startsWith (c # cs) sub \<or> includesStr cs sub)"

text \<open>
  \<open>s.slice(0, s.indexOf(ch))\<close> and \<open>s.slice(s.indexOf(ch) + 1)\<close> for a \<open>ch\<close> that occurs in
  \<open>s\<close> (the callers test \<open>indexOf\<close> against -1 first, and the model tests \<open>ch \<in> set s\<close>).
\<close>

definition beforeFirst :: "char \<Rightarrow> string \<Rightarrow> string" where
  "beforeFirst ch s = takeWhile (\<lambda>c. c \<noteq> ch) s"

definition afterFirst :: "char \<Rightarrow> string \<Rightarrow> string" where
  "afterFirst ch s = drop 1 (dropWhile (\<lambda>c. c \<noteq> ch) s)"

text \<open>\<open>s.split(ch)\<close> for a one-character separator: never empty, \<open>"".split(ch)\<close> is \<open>[""]\<close>.\<close>

fun splitChar :: "char \<Rightarrow> string \<Rightarrow> string list" where
  "splitChar ch [] = [[]]"
| "splitChar ch (c # cs) =
     (if c = ch then [] # splitChar ch cs
      else (case splitChar ch cs of
              [] \<Rightarrow> [[c]]
            | piece # pieces \<Rightarrow> (c # piece) # pieces))"

text \<open>
  \<open>s.split(/\r?\n/)\<close>: a separator is CR LF or a lone LF; a CR that no LF follows stays in
  its line.
\<close>

fun splitLines :: "string \<Rightarrow> string list" where
  "splitLines [] = [[]]"
| "splitLines (c # cs) =
     (if c = LF then [] # splitLines cs
      else if c = CR \<and> startsWith cs [LF] then [] # splitLines (drop 1 cs)
      else (case splitLines cs of
              [] \<Rightarrow> [[c]]
            | line # lines \<Rightarrow> (c # line) # lines))"

text \<open>\<open>s.split('\r\n')\<close> and \<open>s.split(/\r\n/)\<close>: only CR LF separates.\<close>

fun splitCRLF :: "string \<Rightarrow> string list" where
  "splitCRLF [] = [[]]"
| "splitCRLF (c # cs) =
     (if c = CR \<and> startsWith cs [LF] then [] # splitCRLF (drop 1 cs)
      else (case splitCRLF cs of
              [] \<Rightarrow> [[c]]
            | line # lines \<Rightarrow> (c # line) # lines))"

text \<open>\<open>pieces.join(sep)\<close>.\<close>

fun join :: "string \<Rightarrow> string list \<Rightarrow> string" where
  "join sep [] = []"
| "join sep [x] = x"
| "join sep (x # y # ys) = x @ sep @ join sep (y # ys)"

text \<open>
  \<open>s.replace(/X+/g, " ")\<close> for a character class \<open>X\<close>: every maximal run of characters
  of the class becomes one space. \<open>inRun\<close> says that the character before was of the class.
\<close>

fun collapseRuns :: "(char \<Rightarrow> bool) \<Rightarrow> bool \<Rightarrow> string \<Rightarrow> string" where
  "collapseRuns cls inRun [] = []"
| "collapseRuns cls inRun (c # cs) =
     (if cls c then (if inRun then collapseRuns cls True cs else CHR '' '' # collapseRuns cls True cs)
      else c # collapseRuns cls False cs)"

text \<open>\<open>s.replace(/[ \t]+/g, " ")\<close>.\<close>

definition collapseWsp :: "string \<Rightarrow> string" where
  "collapseWsp s = collapseRuns isWsp False s"

text \<open>\<open>s.replace(/\s+/g, " ")\<close>.\<close>

definition collapseSpace :: "string \<Rightarrow> string" where
  "collapseSpace s = collapseRuns isSpace False s"

text \<open>\<open>s.replace(/\s+/g, "")\<close>: all white space removed.\<close>

definition stripSpace :: "string \<Rightarrow> string" where
  "stripSpace s = filter (\<lambda>c. \<not> isSpace c) s"

text \<open>The test \<open>/^[ \t]/.test(line)\<close>.\<close>

definition startsWsp :: "string \<Rightarrow> bool" where
  "startsWsp s = (case s of [] \<Rightarrow> False | c # _ \<Rightarrow> isWsp c)"

text \<open>
  \<open>s.replace(/\r?\n[ \t]+/g, " ")\<close> (\<open>bareLF\<close> true) and \<open>s.replace(/\r\n[ \t]+/g, " ")\<close>
  (\<open>bareLF\<close> false): a line break with the run of spaces and tabs after it becomes one
  space; a line break that no space or tab follows stays.
\<close>

function unfoldBreaks :: "bool \<Rightarrow> string \<Rightarrow> string" where
  "unfoldBreaks bareLF [] = []"
| "unfoldBreaks bareLF (c # cs) =
     (if c = CR \<and> startsWith cs [LF] \<and> startsWsp (drop 1 cs)
        then CHR '' '' # unfoldBreaks bareLF (dropWhile isWsp (drop 1 cs))
      else if bareLF \<and> c = LF \<and> startsWsp cs
        then CHR '' '' # unfoldBreaks bareLF (dropWhile isWsp cs)
      else c # unfoldBreaks bareLF cs)"
  by pat_completeness auto
termination
proof (relation "measure (\<lambda>(bareLF, s). length s)")
  show "wf (measure (\<lambda>(bareLF :: bool, s :: string). length s))" by simp
next
  fix bareLF :: bool and c :: char and cs :: string
  have "length (dropWhile isWsp (drop 1 cs)) \<le> length (drop 1 cs)"
    by (rule length_dropWhile_le)
  then show "((bareLF, dropWhile isWsp (drop 1 cs)), (bareLF, c # cs))
      \<in> measure (\<lambda>(bareLF, s). length s)" by simp
next
  fix bareLF :: bool and c :: char and cs :: string
  have "length (dropWhile isWsp cs) \<le> length cs"
    by (rule length_dropWhile_le)
  then show "((bareLF, dropWhile isWsp cs), (bareLF, c # cs))
      \<in> measure (\<lambda>(bareLF, s). length s)" by simp
next
  fix bareLF :: bool and c :: char and cs :: string
  show "((bareLF, cs), (bareLF, c # cs)) \<in> measure (\<lambda>(bareLF, s). length s)" by simp
qed

definition unfoldWsp :: "string \<Rightarrow> string" where
  "unfoldWsp s = unfoldBreaks True s"

definition unfoldCRLF :: "string \<Rightarrow> string" where
  "unfoldCRLF s = unfoldBreaks False s"

text \<open>\<open>s.indexOf(sub)\<close>, \<open>None\<close> for -1.\<close>

fun indexOfStr :: "string \<Rightarrow> string \<Rightarrow> nat option" where
  "indexOfStr [] sub = (if sub = [] then Some 0 else None)"
| "indexOfStr (c # cs) sub =
     (if startsWith (c # cs) sub then Some 0 else map_option Suc (indexOfStr cs sub))"

section \<open>The headers-only verifier: services/server/dkim.ts\<close>

record VerifyResult =
  ok :: bool
  domain :: "string option"
  subject :: "string option"
  signedHeaders :: "string list option"
  reason :: "string option"

text \<open>A parsed header \<open>{ name, value }\<close>.\<close>

record header =
  hdr_name :: string
  hdr_value :: string

text \<open>
  \<open>getHeaderValue\<close>: the loop runs from the last index down and returns at the first name
  that matches, \<open>null\<close> (here \<open>None\<close>) when none does.
\<close>

definition getHeaderValue :: "header list \<Rightarrow> string \<Rightarrow> string option" where
  "getHeaderValue list nm =
     (let n = toLowerCase nm in
      case find (\<lambda>h. toLowerCase (hdr_name h) = n) (rev list) of
        None \<Rightarrow> None
      | Some h \<Rightarrow> Some (hdr_value h))"

text \<open>
  \<open>current.value += line.trim()\<close>. \<open>current\<close> is assigned only where the object is pushed
  onto \<open>list\<close>, so it is \<open>null\<close> exactly while \<open>list\<close> is empty and is the last element of
  \<open>list\<close> otherwise: the update through the alias is an update of the last element.
\<close>

definition appendToCurrent :: "string \<Rightarrow> header list \<Rightarrow> header list" where
  "appendToCurrent t list =
     (if list = [] then list
      else butlast list @ [(last list)\<lparr>hdr_value := hdr_value (last list) @ t\<rparr>])"

text \<open>
  The loop of \<open>parseHeaders\<close> over the lines, on the state \<open>(list, rawBlocks, block)\<close>.
  The \<open>break\<close> at a blank line returns the state; the \<open>continue\<close> at a line with no colon
  goes on with \<open>block\<close> unchanged (and \<open>rawBlocks\<close> already pushed to).
\<close>

fun parseHeadersLoop ::
  "header list \<Rightarrow> string list \<Rightarrow> string \<Rightarrow> string list \<Rightarrow> header list \<times> string list \<times> string"
where
  "parseHeadersLoop list rawBlocks block [] = (list, rawBlocks, block)"
| "parseHeadersLoop list rawBlocks block (line # lines) =
     (if startsWsp line then
        parseHeadersLoop (appendToCurrent (trim line) list) rawBlocks (block @ CRLF @ line) lines
      else if trim line = [] then (list, rawBlocks, block)
      else
        (let rawBlocks' = (if list \<noteq> [] then rawBlocks @ [block] else rawBlocks) in
         if CHR '':'' \<notin> set line then parseHeadersLoop list rawBlocks' block lines
         else parseHeadersLoop
                (list @ [\<lparr>hdr_name = beforeFirst (CHR '':'') line,
                           hdr_value = trim (afterFirst (CHR '':'') line)\<rparr>])
                rawBlocks' line lines))"

text \<open>The test \<open>/^dkim-signature:/i.test(b)\<close>, and \<open>b.toLowerCase().startsWith("dkim-signature:")\<close>.\<close>

definition isDkimBlock :: "string \<Rightarrow> bool" where
  "isDkimBlock b = startsWith (toLowerCase b) ''dkim-signature:''"

text \<open>\<open>parseHeaders\<close> returns \<open>{ list, rawDkim }\<close>, here a pair.\<close>

definition parseHeaders :: "string \<Rightarrow> header list \<times> string" where
  "parseHeaders raw =
     (case parseHeadersLoop [] [] [] (splitLines raw) of
        (list, rawBlocks, block) \<Rightarrow>
          (let rawBlocks' = (if block \<noteq> [] then rawBlocks @ [block] else rawBlocks) in
           (list, (case find isDkimBlock rawBlocks' of None \<Rightarrow> [] | Some b \<Rightarrow> b))))"

record DkimSig =
  sig_a :: string
  sig_d :: string
  sig_s :: string
  sig_h :: "string list"
  sig_b :: string
  sig_c :: string

text \<open>The callback of \<open>.map(kv => ...)\<close> in \<open>parseDkimSignature\<close>: one \<open>[key, value]\<close> entry.\<close>

definition tagEntry :: "string \<Rightarrow> string \<times> string" where
  "tagEntry kv =
     (if CHR ''='' \<notin> set kv then (toLowerCase kv, [])
      else (toLowerCase (trim (beforeFirst (CHR ''='') kv)), trim (afterFirst (CHR ''='') kv)))"

text \<open>
  \<open>Object.fromEntries(...)\<close> over the pieces of the header value: a later entry with the
  same key replaces an earlier one, so the lookup reads the entries from the last.
  A missing key reads \<open>undefined\<close>, here \<open>None\<close>.
\<close>

definition dkimTags :: "string \<Rightarrow> (string \<rightharpoonup> string)" where
  "dkimTags paramsStr =
     map_of (rev (map tagEntry (filter (\<lambda>p. p \<noteq> []) (map trim (splitChar (CHR '';'') paramsStr)))))"

text \<open>\<open>v || dflt\<close> for a \<open>v\<close> that is a string or \<open>undefined\<close>.\<close>

definition orElse :: "string option \<Rightarrow> string \<Rightarrow> string" where
  "orElse v dflt = (case v of None \<Rightarrow> dflt | Some x \<Rightarrow> if x = [] then dflt else x)"

text \<open>\<open>!v\<close> for a \<open>v\<close> that is a string or \<open>undefined\<close>.\<close>

definition falsy :: "string option \<Rightarrow> bool" where
  "falsy v = (case v of None \<Rightarrow> True | Some x \<Rightarrow> x = [])"

definition parseDkimSignature :: "string \<Rightarrow> DkimSig option" where
  "parseDkimSignature raw =
     (if raw = [] then None
      else if \<not> startsWith (toLowerCase raw) ''dkim-signature:'' then None
      else
        (let tags = dkimTags (afterFirst (CHR '':'') raw);
             a = orElse (tags ''a'') ''rsa-sha256'';
             d = tags ''d'';
             s = tags ''s'';
             h = filter (\<lambda>x. x \<noteq> [])
                   (map (\<lambda>x. toLowerCase (trim x)) (splitChar (CHR '':'') (orElse (tags ''h'') [])));
             b = stripSpace (orElse (tags ''b'') []);
             c = orElse (tags ''c'') ''relaxed/relaxed''
         in if falsy d \<or> falsy s \<or> h = [] \<or> b = [] then None
            else Some \<lparr>sig_a = a, sig_d = orElse d [], sig_s = orElse s [], sig_h = h,
                        sig_b = b, sig_c = c\<rparr>))"

text \<open>
  \<open>relaxedHeader\<close> takes a header object or a string; \<open>withEmptyB\<close> returns one or the other.
\<close>

datatype headerOrString = HeaderObj header | RawString string

text \<open>
  For a string with no colon \<open>indexOf\<close> is -1: \<open>h.slice(0, -1)\<close> is the string without its
  last character and \<open>h.slice(0)\<close> is the whole string.
\<close>

fun relaxedHeader :: "headerOrString \<Rightarrow> string" where
  "relaxedHeader (RawString h) =
     (let nm = toLowerCase (if CHR '':'' \<in> set h then beforeFirst (CHR '':'') h else butlast h);
          v = trim (collapseWsp (if CHR '':'' \<in> set h then afterFirst (CHR '':'') h else h))
      in nm @ '':'' @ v)"
| "relaxedHeader (HeaderObj h) =
     toLowerCase (hdr_name h) @ '':'' @ trim (collapseWsp (hdr_value h))"

text \<open>
  \<open>indicesByName\<close>: for each lower-cased name the indices of its occurrences, ascending.
  The \<open>forEach\<close> visits the headers with their indices from the first.
\<close>

fun indicesByNameFrom ::
  "nat \<Rightarrow> header list \<Rightarrow> (string \<rightharpoonup> nat list) \<Rightarrow> (string \<rightharpoonup> nat list)"
where
  "indicesByNameFrom i [] m = m"
| "indicesByNameFrom i (hdr # rest) m =
     (let n = toLowerCase (hdr_name hdr);
          m' = (if m n = None then m(n \<mapsto> []) else m);
          arr = (case m' n of None \<Rightarrow> [] | Some a \<Rightarrow> a)
      in indicesByNameFrom (Suc i) rest (m'(n \<mapsto> arr @ [i])))"

text \<open>\<open>ptr\<close>: for each name of \<open>indicesByName\<close>, the last position of its index array.\<close>

definition initialPtr :: "(string \<rightharpoonup> nat list) \<Rightarrow> (string \<rightharpoonup> int)" where
  "initialPtr indicesByName = (\<lambda>n. map_option (\<lambda>arr. int (length arr) - 1) (indicesByName n))"

text \<open>
  The loop over \<open>hList\<close>. \<open>ptr\<close> has the keys of \<open>indicesByName\<close>, so \<open>ptr.get(n)!\<close> is
  defined wherever the loop reaches it; the model skips the entry otherwise. \<open>arr[p]\<close> and
  \<open>list[idx]\<close> are read in range: \<open>0 \<le> p < arr.length\<close> and the array holds indices of \<open>list\<close>.
\<close>

fun selectLoop ::
  "header list \<Rightarrow> (string \<rightharpoonup> nat list) \<Rightarrow> (string \<rightharpoonup> int) \<Rightarrow> string list \<Rightarrow> header list"
where
  "selectLoop list indicesByName ptr [] = []"
| "selectLoop list indicesByName ptr (nRaw # rest) =
     (let n = toLowerCase nRaw in
      case indicesByName n of
        None \<Rightarrow> selectLoop list indicesByName ptr rest
      | Some arr \<Rightarrow>
          if arr = [] then selectLoop list indicesByName ptr rest
          else (case ptr n of
                  None \<Rightarrow> selectLoop list indicesByName ptr rest
                | Some p \<Rightarrow>
                    if p < 0 then selectLoop list indicesByName ptr rest
                    else (list ! (arr ! nat p)) #
                         selectLoop list indicesByName (ptr(n \<mapsto> p - 1)) rest))"

definition selectSignedHeaders :: "header list \<Rightarrow> string list \<Rightarrow> header list" where
  "selectSignedHeaders list hList =
     (let indicesByName = indicesByNameFrom 0 list Map.empty
      in selectLoop list indicesByName (initialPtr indicesByName) hList)"

text \<open>
  \<open>headerValue.replace(/\bb=([^;]+)(;?)/i, "b=$2")\<close>, the first match only. \<open>bnd\<close> says that
  a word boundary stands before the current character when that character is a word
  character: there is no character before, or it is not a word character. At a match the
  characters up to the next semicolon go and the semicolon, if there is one, stays.
\<close>

fun blankBFrom :: "bool \<Rightarrow> string \<Rightarrow> string" where
  "blankBFrom bnd [] = []"
| "blankBFrom bnd (c # cs) =
     (if bnd \<and> (c = CHR ''b'' \<or> c = CHR ''B'')
         \<and> (case cs of e # x # _ \<Rightarrow> e = CHR ''='' \<and> x \<noteq> CHR '';'' | _ \<Rightarrow> False)
      then ''b='' @ dropWhile (\<lambda>x. x \<noteq> CHR '';'') (drop 1 cs)
      else c # blankBFrom (\<not> isWordChar c) cs)"

definition withEmptyB :: "string \<Rightarrow> headerOrString" where
  "withEmptyB rawDkim =
     (if \<not> startsWith (toLowerCase rawDkim) ''dkim-signature:'' then RawString rawDkim
      else
        (let headerValue = afterFirst (CHR '':'') rawDkim;
             headerValue = unfoldWsp headerValue;
             headerValue = blankBFrom True headerValue
         in HeaderObj \<lparr>hdr_name = ''dkim-signature'', hdr_value = trim headerValue\<rparr>))"

text \<open>
  \<open>flat.match(/\bp=([^;\s]+)/)\<close>: the first capture group of the first match, \<open>None\<close> when
  there is no match.
\<close>

fun matchP :: "bool \<Rightarrow> string \<Rightarrow> string option" where
  "matchP bnd [] = None"
| "matchP bnd (c # cs) =
     (if bnd \<and> c = CHR ''p''
         \<and> (case cs of e # x # _ \<Rightarrow> e = CHR ''='' \<and> x \<noteq> CHR '';'' \<and> \<not> isSpace x | _ \<Rightarrow> False)
      then Some (takeWhile (\<lambda>x. x \<noteq> CHR '';'' \<and> \<not> isSpace x) (drop 1 cs))
      else matchP (\<not> isWordChar c) cs)"

text \<open>
  \<open>base64.match(/.{1,64}/g) || []\<close>: the pieces of at most 64 characters, a line terminator
  (which \<open>.\<close> does not match) ending a piece and belonging to none. \<open>cur\<close> is the piece so far.
\<close>

fun pemLines :: "string \<Rightarrow> string \<Rightarrow> string list" where
  "pemLines cur [] = (if cur = [] then [] else [cur])"
| "pemLines cur (c # cs) =
     (if c = LF \<or> c = CR then (if cur = [] then pemLines [] cs else cur # pemLines [] cs)
      else if length cur = 64 then cur # pemLines [c] cs
      else pemLines (cur @ [c]) cs)"

definition wrapPem :: "string \<Rightarrow> string" where
  "wrapPem base64 =
     ''-----BEGIN PUBLIC KEY-----'' @ [LF] @ join [LF] (pemLines [] base64) @ [LF] @
     ''-----END PUBLIC KEY-----'' @ [LF]"

text \<open>
  \<open>fetchDkimPublicKey\<close>. \<open>resolveTxt\<close> stands for \<open>dns.resolveTxt\<close>: the records, each a list
  of character-strings, or \<open>None\<close> where the promise rejects (no such name, no TXT data, a
  timeout); the \<open>catch\<close> turns that into \<open>null\<close>.
\<close>

definition fetchDkimPublicKey ::
  "(string \<Rightarrow> string list list option) \<Rightarrow> string \<Rightarrow> string \<Rightarrow> string option"
where
  "fetchDkimPublicKey resolveTxt selector domainName =
     (let nm = selector @ ''._domainkey.'' @ domainName in
      case resolveTxt nm of
        None \<Rightarrow> None
      | Some records \<Rightarrow>
          (let flat = concat (map concat records) in
           case matchP True flat of
             None \<Rightarrow> None
           | Some p \<Rightarrow> Some (wrapPem p)))"

text \<open>The result \<open>{ ok: false, reason }\<close>.\<close>

definition failWith :: "string \<Rightarrow> VerifyResult" where
  "failWith r = \<lparr>ok = False, domain = None, subject = None, signedHeaders = None, reason = Some r\<rparr>"

text \<open>
  The signed data of \<open>verifyHeadersOnly\<close> (the lines from \<open>selected\<close> to \<open>signedData\<close>):
  the selected headers in relaxed form joined by CR LF, a CR LF, and the DKIM-Signature
  header with its \<open>b=\<close> emptied, in relaxed form.
\<close>

definition signedData :: "header list \<Rightarrow> string list \<Rightarrow> string \<Rightarrow> string" where
  "signedData list h rawDkim =
     (let selected = selectSignedHeaders list h;
          canon = join CRLF (map (\<lambda>x. relaxedHeader (HeaderObj x)) selected);
          dkimHeaderCanon = relaxedHeader (withEmptyB rawDkim)
      in canon @ CRLF @ dkimHeaderCanon)"

text \<open>
  \<open>verifyHeadersOnly\<close>. The two collaborators are parameters: \<open>resolveTxt\<close> as above, and
  \<open>rsaVerify pubKey data b\<close> for the \<open>crypto\<close> calls (\<open>createVerify("RSA-SHA256")\<close>,
  \<open>update\<close>, \<open>verify(pubKey, Buffer.from(b, "base64"))\<close>): \<open>Inr\<close> of the verdict, or \<open>Inl\<close> of
  the message of the error it throws (a key the library cannot read), which the \<open>catch\<close>
  of \<open>verifyHeadersOnly\<close> returns as the reason.
\<close>

definition verifyHeadersOnly ::
  "(string \<Rightarrow> string list list option) \<Rightarrow> (string \<Rightarrow> string \<Rightarrow> string \<Rightarrow> string + bool)
     \<Rightarrow> string \<Rightarrow> VerifyResult"
where
  "verifyHeadersOnly resolveTxt rsaVerify headersText =
     (let raw = trim headersText in
      case parseHeaders raw of
        (list, rawDkim) \<Rightarrow>
          (case parseDkimSignature rawDkim of
             None \<Rightarrow> failWith ''no dkim-signature header''
           | Some dkim \<Rightarrow>
               if toLowerCase (sig_a dkim) \<noteq> ''rsa-sha256''
               then failWith (''unsupported a='' @ sig_a dkim)
               else
                 (let subj = (case getHeaderValue list ''subject'' of
                                None \<Rightarrow> None
                              | Some v \<Rightarrow> if v = [] then None else Some v);
                      keyName = sig_s dkim @ ''._domainkey.'' @ sig_d dkim
                  in case fetchDkimPublicKey resolveTxt (sig_s dkim) (sig_d dkim) of
                       None \<Rightarrow> failWith (''dkim public key not found for '' @ keyName)
                     | Some pubKey \<Rightarrow>
                         (case rsaVerify pubKey (signedData list (sig_h dkim) rawDkim) (sig_b dkim) of
                            Inl msg \<Rightarrow> failWith msg
                          | Inr sigOk \<Rightarrow>
                              if \<not> sigOk then failWith ''dkim signature invalid''
                              else \<lparr>ok = True, domain = Some (sig_d dkim), subject = subj,
                                     signedHeaders = Some (sig_h dkim), reason = None\<rparr>))))"

section \<open>The verification route: app/api/verify-dkim-headers/route.ts\<close>

text \<open>
  A session of the session store. The store itself (\<open>services/store/session\<close>) is not
  among the sources; \<open>getSession\<close> is a parameter of the route.
\<close>

record session =
  session_id :: string
  session_domain :: string
  session_nonce :: string

text \<open>
  The JSON bodies the route answers with: \<open>{ error }\<close>, \<open>{ ok: false, reason }\<close> and
  \<open>{ ok: true, domain, domainHash }\<close>. A response is a body with its HTTP status.
\<close>

datatype body = ErrorBody string | Failed string | Bound string string

type_synonym response = "body \<times> nat"

text \<open>
  The checks that follow the DKIM verification. The route has them twice, word for word:
  after \<open>verifyRawEmailWithLibrary\<close> and after \<open>verifyHeadersOnly\<close>.
  \<open>keccak\<close> stands for \<open>keccak256(toUtf8Bytes(_))\<close>.
\<close>

definition bindToSession :: "(string \<Rightarrow> string) \<Rightarrow> VerifyResult \<Rightarrow> session \<Rightarrow> response" where
  "bindToSession keccak v sess =
     (if \<not> ok v \<or> falsy (domain v) then (Failed (orElse (reason v) ''dkim failed''), 400)
      else
        (let dm = toLowerCase (orElse (domain v) []) in
         if dm \<noteq> session_domain sess then (Failed ''domain mismatch'', 400)
         else
           (let subj = toLowerCase (orElse (subject v) []) in
            if \<not> includesStr subj (toLowerCase (session_nonce sess))
            then (Failed ''nonce not found in subject'', 400)
            else
              (let signed = map toLowerCase (case signedHeaders v of None \<Rightarrow> [] | Some hs \<Rightarrow> hs) in
               if ''subject'' \<notin> set signed then (Failed ''subject not signed by dkim'', 400)
               else (Bound dm (keccak dm), 200)))))"

text \<open>
  \<open>POST\<close>, from the three strings read off the request body. \<open>verifyRaw\<close> stands for
  \<open>verifyRawEmailWithLibrary\<close>, whose verdict comes from the external \<open>mailauth\<close> library.
\<close>

definition POST ::
  "(string \<Rightarrow> session option) \<Rightarrow> (string \<Rightarrow> VerifyResult)
     \<Rightarrow> (string \<Rightarrow> string list list option) \<Rightarrow> (string \<Rightarrow> string \<Rightarrow> string \<Rightarrow> string + bool)
     \<Rightarrow> (string \<Rightarrow> string) \<Rightarrow> string \<Rightarrow> string \<Rightarrow> string \<Rightarrow> response"
where
  "POST getSession verifyRaw resolveTxt rsaVerify keccak sessionId headersText rawEmail =
     (if sessionId = [] then (ErrorBody ''sessionId required'', 400)
      else if rawEmail \<noteq> [] then
        (let v = verifyRaw rawEmail in
         case getSession sessionId of
           None \<Rightarrow> (ErrorBody ''session not found'', 404)
         | Some sess \<Rightarrow> bindToSession keccak v sess)
      else if headersText = [] then (ErrorBody ''headersText or rawEmail required'', 400)
      else
        (case getSession sessionId of
           None \<Rightarrow> (ErrorBody ''session not found'', 404)
         | Some sess \<Rightarrow>
             bindToSession keccak (verifyHeadersOnly resolveTxt rsaVerify headersText) sess))"

section \<open>The email parser script (index.js)\<close>

text \<open>
  \<open>normalizeLineEndings\<close>: CR LF to LF, then CR to LF, then LF to CR LF.
\<close>

fun crlfToLf :: "string \<Rightarrow> string" where
  "crlfToLf [] = []"
| "crlfToLf (c # cs) =
     (if c = CR \<and> startsWith cs [LF] then LF # crlfToLf (drop 1 cs) else c # crlfToLf cs)"

definition normalizeLineEndings :: "string \<Rightarrow> string" where
  "normalizeLineEndings s =
     concat (map (\<lambda>c. if c = LF then CRLF else [c]) (map (\<lambda>c. if c = CR then LF else c) (crlfToLf s)))"

text \<open>\<open>splitHeadersAndBody\<close> returns \<open>{ headersRaw, bodyRaw }\<close>, here a pair.\<close>

definition splitHeadersAndBody :: "string \<Rightarrow> string \<times> string" where
  "splitHeadersAndBody normalizedText =
     (case indexOfStr normalizedText (CRLF @ CRLF) of
        None \<Rightarrow> (normalizedText, [])
      | Some idx \<Rightarrow> (take (idx + 2) normalizedText, drop (idx + 4) normalizedText))"

text \<open>A header \<open>{ name, value, raw, index }\<close> of the script.\<close>

record headerObj =
  h_name :: string
  h_value :: string
  h_raw :: string
  h_index :: int

text \<open>
  The loop of the script's \<open>parseHeaders\<close>, on the state \<open>(headers, index)\<close>. \<open>current\<close> is
  the header pushed last (\<open>null\<close> while \<open>headers\<close> is empty), and the two \<open>+=\<close> on it
  update that element of \<open>headers\<close>.
\<close>

fun parseHeadersLoop_idx :: "headerObj list \<Rightarrow> int \<Rightarrow> string list \<Rightarrow> headerObj list" where
  "parseHeadersLoop_idx headers index [] = headers"
| "parseHeadersLoop_idx headers index (line # lines) =
     (if line = [] then parseHeadersLoop_idx headers index lines
      else if startsWsp line then
        (if headers \<noteq> [] then
           parseHeadersLoop_idx
             (butlast headers @
                [(last headers)\<lparr>h_value := h_value (last headers) @ '' '' @ trim line,
                                 h_raw := h_raw (last headers) @ CRLF @ line\<rparr>])
             index lines
         else parseHeadersLoop_idx headers index lines)
      else
        (let nm = (if CHR '':'' \<notin> set line then [] else beforeFirst (CHR '':'') line);
             v = (if CHR '':'' \<notin> set line then line else trim (afterFirst (CHR '':'') line));
             hdr = \<lparr>h_name = nm, h_value = v, h_raw = line @ CRLF, h_index = index\<rparr>
         in parseHeadersLoop_idx (headers @ [hdr]) (index + 1) lines))"

definition parseHeaders_idx :: "string \<Rightarrow> headerObj list" where
  "parseHeaders_idx headersRaw = parseHeadersLoop_idx [] 0 (splitCRLF headersRaw)"

definition findDKIMSignatureHeaders :: "headerObj list \<Rightarrow> headerObj list" where
  "findDKIMSignatureHeaders headersList =
     filter (\<lambda>h. toLowerCase (h_name h) = ''dkim-signature'') headersList"

definition unfoldDKIMValue :: "string \<Rightarrow> string" where
  "unfoldDKIMValue v = trim (collapseSpace (unfoldCRLF v))"

text \<open>
  A tag of the script's tag object is a string, or \<open>true\<close> for a piece with no \<open>=\<close>.
  Calling a string method on \<open>true\<close> throws a \<open>TypeError\<close>.
\<close>

datatype tagval = TagTrue | TagStr string

datatype error = TypeError

text \<open>
  \<open>{ raw, tags }\<close>, with \<open>tags._h_list\<close> as a field of its own: it is assigned after the
  loop over the pieces, so no piece of the header decides it.
\<close>

record parsedDKIM =
  pd_raw :: string
  pd_tags :: "string \<rightharpoonup> tagval"
  pd_h_list :: "string list"

text \<open>
  The quotes around a tag value go: \<open>val.substring(1, val.length - 1)\<close>. For the
  one-character value \<open>"\<close> that is \<open>substring(1, 0)\<close>, which swaps its arguments and returns
  the value as it is.
\<close>

definition unquote :: "string \<Rightarrow> string" where
  "unquote v =
     (if startsWith v [CHR 0x22] \<and> endsWith v [CHR 0x22]
      then (if length v < 2 then v else butlast (drop 1 v))
      else v)"

text \<open>
  \<open>tags[key] = v\<close> on the object literal \<open>tags\<close>. For the key \<open>__proto__\<close> the assignment goes
  to the setter of the prototype, which ignores a string and \<open>true\<close>: no key is made.
\<close>

definition setTag :: "string \<Rightarrow> tagval \<Rightarrow> (string \<rightharpoonup> tagval) \<Rightarrow> (string \<rightharpoonup> tagval)" where
  "setTag key v tags = (if key = ''__proto__'' then tags else tags(key \<mapsto> v))"

text \<open>The body of the loop over the pieces in \<open>parseDKIMHeaderIntoTags\<close>.\<close>

definition addPiece :: "string \<Rightarrow> (string \<rightharpoonup> tagval) \<Rightarrow> (string \<rightharpoonup> tagval)" where
  "addPiece piece0 tags =
     (let piece = trim piece0 in
      if piece = [] then tags
      else if CHR ''='' \<notin> set piece then setTag piece TagTrue tags
      else setTag (trim (beforeFirst (CHR ''='') piece))
             (TagStr (unquote (trim (afterFirst (CHR ''='') piece)))) tags)"

definition parseDKIMHeaderIntoTags :: "headerObj \<Rightarrow> error + parsedDKIM" where
  "parseDKIMHeaderIntoTags dkimHeader =
     (let v = unfoldDKIMValue (h_value dkimHeader);
          tags = fold addPiece (splitChar (CHR '';'') v) Map.empty
      in case tags ''h'' of
           None \<Rightarrow> Inr \<lparr>pd_raw = h_raw dkimHeader, pd_tags = tags, pd_h_list = []\<rparr>
         | Some TagTrue \<Rightarrow> Inl TypeError
         | Some (TagStr hs) \<Rightarrow>
             Inr \<lparr>pd_raw = h_raw dkimHeader, pd_tags = tags,
                  pd_h_list = (if hs = [] then []
                               else filter (\<lambda>x. x \<noteq> []) (map trim (splitChar (CHR '':'') hs)))\<rparr>)"

text \<open>\<open>value.replace(/^[ \t]+|[ \t]+$/g, '')\<close>: the leading and the trailing run go.\<close>

definition trimWsp :: "string \<Rightarrow> string" where
  "trimWsp s = rev (dropWhile isWsp (rev (dropWhile isWsp s)))"

text \<open>
  \<open>canonicalizeHeader\<close>, called with a string for \<open>headerMode\<close>: the empty string stands
  for \<open>simple\<close>, and every mode but \<open>simple\<close> is treated as relaxed.
\<close>

definition canonicalizeHeader :: "headerObj \<Rightarrow> string \<Rightarrow> string" where
  "canonicalizeHeader hdr headerMode0 =
     (let headerMode = toLowerCase (if headerMode0 = [] then ''simple'' else headerMode0) in
      if headerMode = ''simple'' then
        (let s = h_raw hdr in if \<not> endsWith s CRLF then s @ CRLF else s)
      else
        (let nm = toLowerCase (h_name hdr);
             v = unfoldCRLF (h_value hdr);
             v = trimWsp v;
             v = collapseWsp v
         in nm @ '':'' @ v @ CRLF))"

text \<open>\<open>findRightmostUnused\<close>, with the set \<open>usedIndices\<close> it closes over as an argument.\<close>

definition findRightmostUnused :: "int set \<Rightarrow> headerObj list \<Rightarrow> string \<Rightarrow> headerObj option" where
  "findRightmostUnused usedIndices headersList headerName =
     (let lname = toLowerCase headerName in
      find (\<lambda>h. toLowerCase (h_name h) = lname \<and> h_index h \<notin> usedIndices) (rev headersList))"

text \<open>The loop over \<open>hlist\<close> in \<open>assembleCanonicalizedHeaderBlock\<close>: the pieces it pushes.\<close>

fun assembleLoop :: "headerObj list \<Rightarrow> string \<Rightarrow> int set \<Rightarrow> string list \<Rightarrow> string list" where
  "assembleLoop headersList headerMode usedIndices [] = []"
| "assembleLoop headersList headerMode usedIndices (nm # rest) =
     (case findRightmostUnused usedIndices headersList nm of
        None \<Rightarrow> assembleLoop headersList headerMode usedIndices rest
      | Some found \<Rightarrow>
          canonicalizeHeader found headerMode #
          assembleLoop headersList headerMode (insert (h_index found) usedIndices) rest)"

text \<open>\<open>raw.replace(/^DKIM-Signature:\s*/i, '')\<close>.\<close>

definition stripDkimName :: "string \<Rightarrow> string" where
  "stripDkimName raw =
     (if startsWith (toLowerCase raw) ''dkim-signature:'' then dropWhile isSpace (drop 15 raw)
      else raw)"

text \<open>
  \<open>\s*b\s*=\s*([^;]*)\<close> matched at the start of a string: what is left after the match
  (empty, or from the next semicolon on), \<open>None\<close> when it does not match.
\<close>

definition matchBTag :: "string \<Rightarrow> string option" where
  "matchBTag s =
     (case dropWhile isSpace s of
        [] \<Rightarrow> None
      | c # r \<Rightarrow>
          if c = CHR ''b'' \<or> c = CHR ''B'' then
            (case dropWhile isSpace r of
               [] \<Rightarrow> None
             | e # r2 \<Rightarrow> if e = CHR ''='' then Some (dropWhile (\<lambda>x. x \<noteq> CHR '';'') r2) else None)
          else None)"

text \<open>
  \<open>v.replace(/(^|;)\s*b\s*=\s*([^;]*)/i, '$1b=')\<close>, the first match only: at the start of
  the string through \<open>^\<close>, else after the first semicolon that a \<open>b\<close> tag follows.
\<close>

fun blankBAfterSemi :: "string \<Rightarrow> string" where
  "blankBAfterSemi [] = []"
| "blankBAfterSemi (c # cs) =
     (if c = CHR '';'' then
        (case matchBTag cs of
           Some rest \<Rightarrow> '';b='' @ rest
         | None \<Rightarrow> c # blankBAfterSemi cs)
      else c # blankBAfterSemi cs)"

definition blankB_idx :: "string \<Rightarrow> string" where
  "blankB_idx v = (case matchBTag v of Some rest \<Rightarrow> ''b='' @ rest | None \<Rightarrow> blankBAfterSemi v)"

text \<open>
  \<open>(chosenDKIM.tags.c || 'simple').split('/')[0] || 'simple'\<close>; \<open>split\<close> on the tag value
  \<open>true\<close> throws.
\<close>

definition headerModeOf :: "(string \<rightharpoonup> tagval) \<Rightarrow> error + string" where
  "headerModeOf tags =
     (case tags ''c'' of
        None \<Rightarrow> Inr ''simple''
      | Some TagTrue \<Rightarrow> Inl TypeError
      | Some (TagStr c) \<Rightarrow>
          if c = [] then Inr ''simple''
          else (case splitChar (CHR ''/'') c of
                  [] \<Rightarrow> Inr ''simple''
                | m # _ \<Rightarrow> if m = [] then Inr ''simple'' else Inr m))"

text \<open>\<open>assembleCanonicalizedHeaderBlock\<close>: \<open>null\<close> (here \<open>Inr None\<close>) when no signature is chosen.\<close>

definition assembleCanonicalizedHeaderBlock ::
  "parsedDKIM option \<Rightarrow> headerObj list \<Rightarrow> error + string option"
where
  "assembleCanonicalizedHeaderBlock chosenDKIM headersList =
     (case chosenDKIM of
        None \<Rightarrow> Inr None
      | Some chosen \<Rightarrow>
          (case headerModeOf (pd_tags chosen) of
             Inl e \<Rightarrow> Inl e
           | Inr headerMode \<Rightarrow>
               (let blockPieces = assembleLoop headersList headerMode {} (pd_h_list chosen);
                    dkimValueUnfold = unfoldDKIMValue (stripDkimName (pd_raw chosen));
                    replaced = blankB_idx dkimValueUnfold;
                    dkimHeaderForCanon = ''dkim-signature:'' @ replaced @ CRLF;
                    fakeHeaderObj = \<lparr>h_name = ''dkim-signature'', h_value = replaced,
                                     h_raw = dkimHeaderForCanon, h_index = - 1\<rparr>;
                    dkimCanon = canonicalizeHeader fakeHeaderObj headerMode
                in Inr (Some (concat (blockPieces @ [dkimCanon]))))))"

text \<open>
  \<open>chooseDKIMSignature\<close>, its two loops first. \<open>toLowerCase\<close> on the tag value \<open>true\<close>
  throws.
\<close>

fun firstByDomain :: "string \<Rightarrow> parsedDKIM list \<Rightarrow> error + parsedDKIM option" where
  "firstByDomain claimedDomain [] = Inr None"
| "firstByDomain claimedDomain (p # ps) =
     (case pd_tags p ''d'' of
        None \<Rightarrow> firstByDomain claimedDomain ps
      | Some TagTrue \<Rightarrow> Inl TypeError
      | Some (TagStr d) \<Rightarrow>
          if d \<noteq> [] \<and> toLowerCase d = toLowerCase claimedDomain then Inr (Some p)
          else firstByDomain claimedDomain ps)"

definition supported :: "string list" where
  "supported = [''rsa-sha256'', ''ed25519-sha256'']"

fun firstSupported :: "parsedDKIM list \<Rightarrow> error + parsedDKIM option" where
  "firstSupported [] = Inr None"
| "firstSupported (p # ps) =
     (case pd_tags p ''a'' of
        None \<Rightarrow> firstSupported ps
      | Some TagTrue \<Rightarrow> Inl TypeError
      | Some (TagStr a) \<Rightarrow>
          if a \<noteq> [] \<and> toLowerCase a \<in> set supported then Inr (Some p)
          else firstSupported ps)"

text \<open>
  \<open>claimedDomain\<close> is a string or \<open>undefined\<close>; \<open>if (claimedDomain)\<close> holds for a non-empty
  string.
\<close>

definition chooseDKIMSignature :: "parsedDKIM list \<Rightarrow> string option \<Rightarrow> error + parsedDKIM option" where
  "chooseDKIMSignature parsedDKIMs claimedDomain =
     (case parsedDKIMs of
        [] \<Rightarrow> Inr None
      | p0 # _ \<Rightarrow>
          (case (if falsy claimedDomain then Inr None
                 else firstByDomain (orElse claimedDomain []) parsedDKIMs) of
             Inl e \<Rightarrow> Inl e
           | Inr (Some p) \<Rightarrow> Inr (Some p)
           | Inr None \<Rightarrow>
               (case firstSupported parsedDKIMs of
                  Inl e \<Rightarrow> Inl e
                | Inr (Some p) \<Rightarrow> Inr (Some p)
                | Inr None \<Rightarrow> Inr (Some p0))))"

text \<open>\<open>dkimHeaders.map(h => parseDKIMHeaderIntoTags(h))\<close>: the first throw ends the map.\<close>

fun parseAll :: "headerObj list \<Rightarrow> error + parsedDKIM list" where
  "parseAll [] = Inr []"
| "parseAll (h # hs) =
     (case parseDKIMHeaderIntoTags h of
        Inl e \<Rightarrow> Inl e
      | Inr p \<Rightarrow> (case parseAll hs of Inl e \<Rightarrow> Inl e | Inr ps \<Rightarrow> Inr (p # ps)))"

text \<open>
  The DKIM part of \<open>parseEmailRawBuffer\<close>, from the raw message read as a binary string:
  the parsed signatures, the one the script chooses and the canonicalized header block
  it prints. (The MIME part of the function goes through \<open>mailparser\<close> and decides none of
  the three; \<open>canonicalizeBody\<close>, called before the header block is assembled, throws on
  the tag value \<open>true\<close> of \<open>c\<close> as \<open>headerModeOf\<close> does, and on nothing else.)
\<close>

definition parseEmailRawBuffer ::
  "string \<Rightarrow> error + (parsedDKIM list \<times> parsedDKIM option \<times> string option)"
where
  "parseEmailRawBuffer rawBytes =
     (let normalized = normalizeLineEndings rawBytes in
      case splitHeadersAndBody normalized of
        (headersRaw, bodyRaw) \<Rightarrow>
          (let headersList = parseHeaders_idx headersRaw;
               dkimHeaders = findDKIMSignatureHeaders headersList
           in case parseAll dkimHeaders of
                Inl e \<Rightarrow> Inl e
              | Inr parsedDKIMs \<Rightarrow>
                  (let chosenDKIM = (case parsedDKIMs of [] \<Rightarrow> None | p # _ \<Rightarrow> Some p) in
                   case assembleCanonicalizedHeaderBlock chosenDKIM headersList of
                     Inl e \<Rightarrow> Inl e
                   | Inr block \<Rightarrow> Inr (parsedDKIMs, chosenDKIM, block))))"

section \<open>The specification's selection rule\<close>

text \<open>
  The rule of the specification, on the header names in message order: the rightmost
  occurrence of a name (compared in lower case) whose position is not used yet.
\<close>

definition rightmostUnusedIndex :: "string list \<Rightarrow> nat set \<Rightarrow> string \<Rightarrow> nat option" where
  "rightmostUnusedIndex names used n =
     find (\<lambda>i. toLowerCase (names ! i) = toLowerCase n \<and> i \<notin> used) (rev [0..<length names])"

text \<open>
  The positions selected for the names of \<open>h=\<close> in listed order: each selected position
  becomes used, and a name with no occurrence left is skipped.
\<close>

fun selectIndices :: "string list \<Rightarrow> nat set \<Rightarrow> string list \<Rightarrow> nat list" where
  "selectIndices names used [] = []"
| "selectIndices names used (n # ns) =
     (case rightmostUnusedIndex names used n of
        None \<Rightarrow> selectIndices names used ns
      | Some i \<Rightarrow> i # selectIndices names (insert i used) ns)"

text \<open>
  The value of the last header, in message order, whose name is \<open>nm\<close> in lower case;
  \<open>None\<close> when the message has no such header.
\<close>

definition lastValueOf :: "header list \<Rightarrow> string \<Rightarrow> string option" where
  "lastValueOf list nm =
     (case filter (\<lambda>h. toLowerCase (hdr_name h) = toLowerCase nm) list of
        [] \<Rightarrow> None
      | h # hs \<Rightarrow> Some (hdr_value (last (h # hs))))"

section \<open>The specification's required tags\<close>

text \<open>
  A tag is missing when the tag object has no value for it or an empty one
  (\<open>d=\<close> with nothing after the \<open>=\<close>, or \<open>d\<close> with no \<open>=\<close>).
\<close>

definition tagMissing :: "(string \<rightharpoonup> string) \<Rightarrow> string \<Rightarrow> bool" where
  "tagMissing tags k = (tags k = None \<or> tags k = Some [])"

text \<open>No non-empty \<open>h=\<close> list: no \<open>h\<close> tag, or every colon-separated piece of it is blank.\<close>

definition noSignedHeaderNames :: "(string \<rightharpoonup> string) \<Rightarrow> bool" where
  "noSignedHeaderNames tags =
     (case tags ''h'' of
        None \<Rightarrow> True
      | Some v \<Rightarrow> list_all (\<lambda>x. trim x = []) (splitChar (CHR '':'') v))"

text \<open>No signature: no \<open>b\<close> tag, or nothing but white space in it.\<close>

definition noSignatureValue :: "(string \<rightharpoonup> string) \<Rightarrow> bool" where
  "noSignatureValue tags = (case tags ''b'' of None \<Rightarrow> True | Some v \<Rightarrow> list_all isSpace v)"

section \<open>Base64 text\<close>

text \<open>The characters of base64 key material: letters, digits, \<open>+\<close>, \<open>/\<close> and the padding \<open>=\<close>.\<close>

definition isBase64Char :: "char \<Rightarrow> bool" where
  "isBase64Char c = (let n = (of_char c :: nat) in
     (65 \<le> n \<and> n \<le> 90) \<or> (97 \<le> n \<and> n \<le> 122) \<or> (48 \<le> n \<and> n \<le> 57)
     \<or> c = CHR ''+'' \<or> c = CHR ''/'' \<or> c = CHR ''='')"

definition isBase64 :: "string \<Rightarrow> bool" where
  "isBase64 s = list_all isBase64Char s"

section \<open>The specification's candidate policy\<close>

text \<open>The \<open>d=\<close> of a parsed signature equals the claimed domain, compared in lower case.\<close>

definition dEqualsClaimed :: "string \<Rightarrow> parsedDKIM \<Rightarrow> bool" where
  "dEqualsClaimed claimed p =
     (case pd_tags p ''d'' of
        Some (TagStr d) \<Rightarrow> toLowerCase d = toLowerCase claimed
      | _ \<Rightarrow> False)"

text \<open>The \<open>a=\<close> of a parsed signature is \<open>rsa-sha256\<close> or \<open>ed25519-sha256\<close>, in any case.\<close>

definition usesSupportedAlgorithm :: "parsedDKIM \<Rightarrow> bool" where
  "usesSupportedAlgorithm p =
     (case pd_tags p ''a'' of
        Some (TagStr a) \<Rightarrow> toLowerCase a = ''rsa-sha256'' \<or> toLowerCase a = ''ed25519-sha256''
      | _ \<Rightarrow> False)"

text \<open>
  The policy: the first signature whose \<open>d=\<close> equals the claimed domain; else the first
  with a supported algorithm; else the first of all.
\<close>

definition policyChoice :: "parsedDKIM list \<Rightarrow> string \<Rightarrow> parsedDKIM option" where
  "policyChoice ps claimed =
     (case find (dEqualsClaimed claimed) ps of
        Some p \<Rightarrow> Some p
      | None \<Rightarrow>
          (case find usesSupportedAlgorithm ps of
             Some p \<Rightarrow> Some p
           | None \<Rightarrow> (case ps of [] \<Rightarrow> None | p # _ \<Rightarrow> Some p)))"

section \<open>Notions of the proofs\<close>

text \<open>The positions of the headers whose lower-cased name is \<open>n\<close>, ascending.\<close>

definition occ :: "header list \<Rightarrow> string \<Rightarrow> nat list" where
  "occ list n = filter (\<lambda>j. toLowerCase (hdr_name (list ! j)) = n) [0..<length list]"

text \<open>
  The invariant of the loop of \<open>selectSignedHeaders\<close>: for each name that occurs, the
  pointer is one below the number of its positions not used yet, and those are the
  first ones of its index array.
\<close>

definition ptrInv :: "header list \<Rightarrow> (string \<rightharpoonup> int) \<Rightarrow> nat set \<Rightarrow> bool" where
  "ptrInv list ptr used \<longleftrightarrow>
     (\<forall>n. occ list n \<noteq> [] \<longrightarrow>
        (\<exists>k\<le>length (occ list n). ptr n = Some (int k - 1)
           \<and> filter (\<lambda>i. i \<notin> used) (occ list n) = take k (occ list n)))"

section \<open>The p tag of a key record\<close>

text \<open>
  A \<open>p=\<close> starts at position \<open>i\<close> of the concatenated record text: a \<open>p\<close> at a word boundary
  (the start of the text, or after a character that is no letter, digit or underscore),
  then \<open>=\<close>, then at once a character that is neither \<open>;\<close> nor white space.
\<close>

definition pTagStartsAt :: "string \<Rightarrow> nat \<Rightarrow> bool" where
  "pTagStartsAt flat i =
     (i + 2 < length flat \<and> flat ! i = CHR ''p'' \<and> flat ! (i + 1) = CHR ''=''
      \<and> flat ! (i + 2) \<noteq> CHR '';'' \<and> \<not> isSpace (flat ! (i + 2))
      \<and> (i = 0 \<or> \<not> isWordChar (flat ! (i - 1))))"

text \<open>The first position where a \<open>p=\<close> starts, \<open>None\<close> when there is none.\<close>

definition firstPTag :: "string \<Rightarrow> nat option" where
  "firstPTag flat = find (pTagStartsAt flat) [0..<length flat]"

text \<open>
  The value of the \<open>p=\<close> that starts at position \<open>i\<close>: the characters after the \<open>=\<close> up to
  the next \<open>;\<close> or white space.
\<close>

definition pValueAt :: "string \<Rightarrow> nat \<Rightarrow> string" where
  "pValueAt flat i = takeWhile (\<lambda>x. x \<noteq> CHR '';'' \<and> \<not> isSpace x) (drop (i + 2) flat)"

section \<open>Lower case and searching from the end\<close>

lemma lowerChar_idem: "lowerChar (lowerChar c) = lowerChar c"
  unfolding lowerChar_def Let_def by (auto simp: of_char_of)

lemma toLowerCase_idem: "toLowerCase (toLowerCase s) = toLowerCase s"
  by (simp add: toLowerCase_def lowerChar_idem)

lemma find_rev_last:
  "find P (rev xs) = (case filter P xs of [] \<Rightarrow> None | y # ys \<Rightarrow> Some (last (y # ys)))"
proof (induction xs rule: rev_induct)
  case Nil
  then show ?case by simp
next
  case (snoc x xs)
  then show ?case by (cases "filter P xs") auto
qed

section \<open>The Subject of the outcome\<close>

lemma getHeaderValue_lastValueOf: "getHeaderValue list nm = lastValueOf list nm"
  unfolding getHeaderValue_def lastValueOf_def Let_def find_rev_last
  by (simp split: list.splits)

lemma verifyHeadersOnly_ok_subject:
  assumes "ok (verifyHeadersOnly resolveTxt rsaVerify headersText)"
  shows "subject (verifyHeadersOnly resolveTxt rsaVerify headersText) =
     (case getHeaderValue (fst (parseHeaders (trim headersText))) ''subject'' of
        None \<Rightarrow> None
      | Some v \<Rightarrow> if v = [] then None else Some v)"
  using assms unfolding verifyHeadersOnly_def Let_def
  by (auto simp: failWith_def split: prod.splits option.splits sum.splits if_splits)

text \<open>
  Claim C10. \<open>getHeaderValue\<close> returns the value of the last header of that name in
  message order (names compared in lower case). So the Subject that a successful
  \<open>verifyHeadersOnly\<close> reports, which the route then searches for the nonce, is the value
  of the last Subject header of the message (and is absent when that value is empty).
\<close>

theorem subject_is_last_occurrence:
  "getHeaderValue list nm = lastValueOf list nm \<and>
   (ok (verifyHeadersOnly resolveTxt rsaVerify headersText) \<longrightarrow>
      subject (verifyHeadersOnly resolveTxt rsaVerify headersText) =
        (case lastValueOf (fst (parseHeaders (trim headersText))) ''subject'' of
           None \<Rightarrow> None
         | Some v \<Rightarrow> if v = [] then None else Some v))"
  using verifyHeadersOnly_ok_subject [of resolveTxt rsaVerify headersText]
  by (simp add: getHeaderValue_lastValueOf)

theorem subject_is_last_occurrence_witness:
  "getHeaderValue [\<lparr>hdr_name = ''Subject'', hdr_value = ''first''\<rparr>,
                   \<lparr>hdr_name = ''From'', hdr_value = ''a@example.com''\<rparr>,
                   \<lparr>hdr_name = ''SUBJECT'', hdr_value = ''second''\<rparr>] ''subject'' = Some ''second''
   \<and> ok (verifyHeadersOnly (\<lambda>n. Some [[''v=DKIM1; p=QUJD'']]) (\<lambda>k d b. Inr True)
        (''DKIM-Signature: a=rsa-sha256; d=example.com; s=sel1; h=from:subject:date; b=QUJD'' @ CRLF @
         ''Subject: first'' @ CRLF @ ''Subject: Verify 7f3a9c21''))
   \<and> subject (verifyHeadersOnly (\<lambda>n. Some [[''v=DKIM1; p=QUJD'']]) (\<lambda>k d b. Inr True)
        (''DKIM-Signature: a=rsa-sha256; d=example.com; s=sel1; h=from:subject:date; b=QUJD'' @ CRLF @
         ''Subject: first'' @ CRLF @ ''Subject: Verify 7f3a9c21'')) = Some ''Verify 7f3a9c21''"
proof -
  let ?list = "[\<lparr>hdr_name = ''Subject'', hdr_value = ''first''\<rparr>,
                \<lparr>hdr_name = ''From'', hdr_value = ''a@example.com''\<rparr>,
                \<lparr>hdr_name = ''SUBJECT'', hdr_value = ''second''\<rparr>]"
  let ?text = "''DKIM-Signature: a=rsa-sha256; d=example.com; s=sel1; h=from:subject:date; b=QUJD'' @ CRLF @
         ''Subject: first'' @ CRLF @ ''Subject: Verify 7f3a9c21''"
  let ?R = "\<lambda>n::string. Some [[''v=DKIM1; p=QUJD'']]"
  let ?V = "\<lambda>(k::string) (d::string) (b::string). (Inr True :: string + bool)"
  note inst = subject_is_last_occurrence [of ?list "''subject''" ?R ?V ?text]
  have a: "lastValueOf ?list ''subject'' = Some ''second''" by code_simp
  have b: "ok (verifyHeadersOnly ?R ?V ?text)" by code_simp
  have c: "(case lastValueOf (fst (parseHeaders (trim ?text))) ''subject'' of
           None \<Rightarrow> None
         | Some v \<Rightarrow> if v = [] then None else Some v) = Some ''Verify 7f3a9c21''" by code_simp
  from inst a b c show ?thesis by simp
qed

section \<open>Binding the verified domain to the session\<close>

lemma POST_with_session:
  assumes "sessionId \<noteq> []" and "rawEmail \<noteq> [] \<or> headersText \<noteq> []"
    and "getSession sessionId = Some sess"
  shows "POST getSession verifyRaw resolveTxt rsaVerify keccak sessionId headersText rawEmail =
     bindToSession keccak
       (if rawEmail \<noteq> [] then verifyRaw rawEmail
        else verifyHeadersOnly resolveTxt rsaVerify headersText) sess"
  using assms by (auto simp: POST_def Let_def)

lemma bindToSession_Bound:
  assumes "bindToSession keccak v sess = (Bound dm hash, st)"
  shows "\<exists>d. domain v = Some d \<and> toLowerCase d = session_domain sess \<and> dm = toLowerCase d"
  using assms unfolding bindToSession_def Let_def
  by (cases "domain v") (auto simp: falsy_def orElse_def split: if_splits)

lemma bindToSession_mismatch:
  assumes "ok v" and "domain v = Some d" and "d \<noteq> []"
    and "toLowerCase d \<noteq> session_domain sess"
  shows "bindToSession keccak v sess = (Failed ''domain mismatch'', 400)"
  using assms by (simp add: bindToSession_def Let_def falsy_def orElse_def)

lemma bindToSession_unsigned_subject:
  assumes "ok v" and "domain v = Some d" and "d \<noteq> []"
    and "toLowerCase d = session_domain sess"
    and "includesStr (toLowerCase (orElse (subject v) [])) (toLowerCase (session_nonce sess))"
    and "''subject'' \<notin> set (map toLowerCase (case signedHeaders v of None \<Rightarrow> [] | Some hs \<Rightarrow> hs))"
  shows "bindToSession keccak v sess = (Failed ''subject not signed by dkim'', 400)"
  using assms by (simp add: bindToSession_def Let_def falsy_def orElse_def)

text \<open>
  Claim C3. For an attempt against an existing session, with \<open>v\<close> the outcome of the DKIM
  verification the route ran (the library path when a raw email is given, else the
  headers-only path): the route answers success only if the lower-cased \<open>d=\<close> of \<open>v\<close>
  equals the lower-cased domain of the session, and a verified \<open>d=\<close> whose lower case
  differs from it (a subdomain such as \<open>mail.example.com\<close> for \<open>example.com\<close>) is answered
  with the reason \<open>domain mismatch\<close>.
\<close>

theorem domain_must_equal_session_domain:
  assumes "sessionId \<noteq> []" and "rawEmail \<noteq> [] \<or> headersText \<noteq> []"
    and "getSession sessionId = Some sess"
    and "v = (if rawEmail \<noteq> [] then verifyRaw rawEmail
              else verifyHeadersOnly resolveTxt rsaVerify headersText)"
  shows "(POST getSession verifyRaw resolveTxt rsaVerify keccak sessionId headersText rawEmail
            = (Bound dm hash, 200)
          \<longrightarrow> (\<exists>d. domain v = Some d \<and> dm = toLowerCase d
                 \<and> toLowerCase d = toLowerCase (session_domain sess)))
       \<and> (ok v \<and> domain v = Some d' \<and> d' \<noteq> []
            \<and> toLowerCase d' \<noteq> toLowerCase (session_domain sess)
          \<longrightarrow> POST getSession verifyRaw resolveTxt rsaVerify keccak sessionId headersText rawEmail
                = (Failed ''domain mismatch'', 400))"
proof -
  have post: "POST getSession verifyRaw resolveTxt rsaVerify keccak sessionId headersText rawEmail
      = bindToSession keccak v sess"
    using assms by (simp add: POST_with_session)
  have succ: "\<exists>d. domain v = Some d \<and> dm = toLowerCase d
      \<and> toLowerCase d = toLowerCase (session_domain sess)"
    if "bindToSession keccak v sess = (Bound dm hash, 200)"
  proof -
    from bindToSession_Bound [OF that] obtain d where
      d: "domain v = Some d" "toLowerCase d = session_domain sess" "dm = toLowerCase d"
      by blast
    from d(2) have "toLowerCase (session_domain sess) = toLowerCase (toLowerCase d)" by simp
    then have "toLowerCase d = toLowerCase (session_domain sess)"
      by (simp add: toLowerCase_idem)
    with d show ?thesis by blast
  qed
  have mism: "bindToSession keccak v sess = (Failed ''domain mismatch'', 400)"
    if "ok v" and "domain v = Some d'" and "d' \<noteq> []"
      and ne: "toLowerCase d' \<noteq> toLowerCase (session_domain sess)"
  proof -
    have "toLowerCase d' \<noteq> session_domain sess"
    proof
      assume "toLowerCase d' = session_domain sess"
      then have "toLowerCase (session_domain sess) = toLowerCase (toLowerCase d')" by simp
      then show False using ne by (simp add: toLowerCase_idem)
    qed
    with that show ?thesis by (simp add: bindToSession_mismatch)
  qed
  show ?thesis using post succ mism by simp
qed

theorem domain_must_equal_session_domain_witness:
  "POST (\<lambda>i. if i = ''s1'' then Some \<lparr>session_id = ''s1'', session_domain = ''example.com'',
                                        session_nonce = ''7f3a9c21''\<rparr> else None)
        (\<lambda>m. failWith ''dkim library not available'')
        (\<lambda>n. Some [[''v=DKIM1; p=QUJD'']]) (\<lambda>k d b. Inr True) (\<lambda>d. ''0x'' @ d) ''s1''
        (''DKIM-Signature: a=rsa-sha256; d=mail.example.com; s=sel1; h=from:subject:date; b=QUJD''
           @ CRLF @ ''Subject: Verify 7f3a9c21'') []
     = (Failed ''domain mismatch'', 400)
   \<and> POST (\<lambda>i. if i = ''s1'' then Some \<lparr>session_id = ''s1'', session_domain = ''example.com'',
                                        session_nonce = ''7f3a9c21''\<rparr> else None)
        (\<lambda>m. failWith ''dkim library not available'')
        (\<lambda>n. Some [[''v=DKIM1; p=QUJD'']]) (\<lambda>k d b. Inr True) (\<lambda>d. ''0x'' @ d) ''s1''
        (''DKIM-Signature: a=rsa-sha256; d=Example.COM; s=sel1; h=from:subject:date; b=QUJD''
           @ CRLF @ ''Subject: Verify 7f3a9c21'') []
     = (Bound ''example.com'' ''0xexample.com'', 200)
   \<and> toLowerCase ''Example.COM'' = toLowerCase ''example.com''"
proof -
  let ?G = "\<lambda>i. if i = ''s1'' then Some \<lparr>session_id = ''s1'', session_domain = ''example.com'',
                                        session_nonce = ''7f3a9c21''\<rparr> else None"
  let ?sess = "\<lparr>session_id = ''s1'', session_domain = ''example.com'', session_nonce = ''7f3a9c21''\<rparr>"
  let ?VR = "\<lambda>m::string. failWith ''dkim library not available''"
  let ?R = "\<lambda>n::string. Some [[''v=DKIM1; p=QUJD'']]"
  let ?V = "\<lambda>(k::string) (d::string) (b::string). (Inr True :: string + bool)"
  let ?K = "\<lambda>d. ''0x'' @ d"
  let ?bad = "''DKIM-Signature: a=rsa-sha256; d=mail.example.com; s=sel1; h=from:subject:date; b=QUJD''
           @ CRLF @ ''Subject: Verify 7f3a9c21''"
  let ?good = "''DKIM-Signature: a=rsa-sha256; d=Example.COM; s=sel1; h=from:subject:date; b=QUJD''
           @ CRLF @ ''Subject: Verify 7f3a9c21''"
  have sid: "''s1'' \<noteq> ([] :: string)" by simp
  have g: "?G ''s1'' = Some ?sess" by simp
  have inpb: "([] :: string) \<noteq> [] \<or> ?bad \<noteq> []" by (simp add: CRLF_def)
  have inpg: "([] :: string) \<noteq> [] \<or> ?good \<noteq> []" by (simp add: CRLF_def)
  have vb: "verifyHeadersOnly ?R ?V ?bad =
      \<lparr>ok = True, domain = Some ''mail.example.com'', subject = Some ''Verify 7f3a9c21'',
       signedHeaders = Some [''from'', ''subject'', ''date''], reason = None\<rparr>" by code_simp
  have ne: "toLowerCase ''mail.example.com'' \<noteq> toLowerCase (session_domain ?sess)" by code_simp
  have pg: "POST ?G ?VR ?R ?V ?K ''s1'' ?good [] = (Bound ''example.com'' ''0xexample.com'', 200)"
    by code_simp
  have vg: "domain (verifyHeadersOnly ?R ?V ?good) = Some ''Example.COM''" by code_simp
  from domain_must_equal_session_domain
         [of "''s1''" "[]" ?bad ?G ?sess "verifyHeadersOnly ?R ?V ?bad" ?VR ?R ?V ?K
             "''x''" "''y''" "''mail.example.com''", OF sid inpb g]
  have bad: "POST ?G ?VR ?R ?V ?K ''s1'' ?bad [] = (Failed ''domain mismatch'', 400)"
    using vb ne by simp
  note inst = domain_must_equal_session_domain
         [of "''s1''" "[]" ?good ?G ?sess "verifyHeadersOnly ?R ?V ?good" ?VR ?R ?V ?K
             "''example.com''" "''0xexample.com''" "''x''"]
  have veq: "verifyHeadersOnly ?R ?V ?good =
      (if ([] :: string) \<noteq> [] then ?VR [] else verifyHeadersOnly ?R ?V ?good)"
    by simp
  from inst [OF sid inpg g veq] pg obtain d where
    d: "domain (verifyHeadersOnly ?R ?V ?good) = Some d"
       "toLowerCase d = toLowerCase (session_domain ?sess)"
    by blast
  from d(1) vg have "d = ''Example.COM''" by simp
  with d(2) have good: "toLowerCase ''Example.COM'' = toLowerCase ''example.com''"
    by simp
  from bad pg good show ?thesis by blast
qed

text \<open>
  Claim C4. When the signature verifies, the verified domain equals the session's and the
  Subject holds the nonce, but \<open>subject\<close> (in lower case) is not among the signed header
  names of the verified signature, the route answers with the reason
  \<open>subject not signed by dkim\<close>, not with success.
\<close>

theorem unsigned_subject_is_rejected:
  assumes "sessionId \<noteq> []" and "rawEmail \<noteq> [] \<or> headersText \<noteq> []"
    and "getSession sessionId = Some sess"
    and "v = (if rawEmail \<noteq> [] then verifyRaw rawEmail
              else verifyHeadersOnly resolveTxt rsaVerify headersText)"
    and "ok v" and "domain v = Some d" and "d \<noteq> []"
    and "toLowerCase d = session_domain sess"
    and "includesStr (toLowerCase (orElse (subject v) [])) (toLowerCase (session_nonce sess))"
    and "''subject'' \<notin> set (map toLowerCase (case signedHeaders v of None \<Rightarrow> [] | Some hs \<Rightarrow> hs))"
  shows "POST getSession verifyRaw resolveTxt rsaVerify keccak sessionId headersText rawEmail
           = (Failed ''subject not signed by dkim'', 400)"
proof -
  have "POST getSession verifyRaw resolveTxt rsaVerify keccak sessionId headersText rawEmail
      = bindToSession keccak v sess"
    using assms(1-4) by (simp add: POST_with_session)
  then show ?thesis
    using assms(5-10) by (simp add: bindToSession_unsigned_subject)
qed

theorem unsigned_subject_is_rejected_witness:
  "POST (\<lambda>i. if i = ''s1'' then Some \<lparr>session_id = ''s1'', session_domain = ''example.com'',
                                        session_nonce = ''7f3a9c21''\<rparr> else None)
        (\<lambda>m. failWith ''dkim library not available'')
        (\<lambda>n. Some [[''v=DKIM1; p=QUJD'']]) (\<lambda>k d b. Inr True) (\<lambda>d. ''0x'' @ d) ''s1''
        (''DKIM-Signature: a=rsa-sha256; d=example.com; s=sel1; h=from:date; b=QUJD''
           @ CRLF @ ''Subject: Verify 7F3A9C21'') []
     = (Failed ''subject not signed by dkim'', 400)"
proof -
  let ?G = "\<lambda>i. if i = ''s1'' then Some \<lparr>session_id = ''s1'', session_domain = ''example.com'',
                                        session_nonce = ''7f3a9c21''\<rparr> else None"
  let ?sess = "\<lparr>session_id = ''s1'', session_domain = ''example.com'', session_nonce = ''7f3a9c21''\<rparr>"
  let ?VR = "\<lambda>m::string. failWith ''dkim library not available''"
  let ?R = "\<lambda>n::string. Some [[''v=DKIM1; p=QUJD'']]"
  let ?V = "\<lambda>(k::string) (d::string) (b::string). (Inr True :: string + bool)"
  let ?K = "\<lambda>d. ''0x'' @ d"
  let ?text = "''DKIM-Signature: a=rsa-sha256; d=example.com; s=sel1; h=from:date; b=QUJD''
           @ CRLF @ ''Subject: Verify 7F3A9C21''"
  let ?v = "\<lparr>ok = True, domain = Some ''example.com'', subject = Some ''Verify 7F3A9C21'',
       signedHeaders = Some [''from'', ''date''], reason = None\<rparr>"
  have sid: "''s1'' \<noteq> ([] :: string)" by simp
  have g: "?G ''s1'' = Some ?sess" by simp
  have inp: "([] :: string) \<noteq> [] \<or> ?text \<noteq> []" by (simp add: CRLF_def)
  have v: "?v = (if ([] :: string) \<noteq> [] then ?VR [] else verifyHeadersOnly ?R ?V ?text)"
    by code_simp
  have h1: "ok ?v" and h2: "domain ?v = Some ''example.com''" and h3: "''example.com'' \<noteq> []"
    by simp_all
  have h4: "toLowerCase ''example.com'' = session_domain ?sess" by code_simp
  have h5: "includesStr (toLowerCase (orElse (subject ?v) [])) (toLowerCase (session_nonce ?sess))"
    by code_simp
  have h6: "''subject'' \<notin> set (map toLowerCase (case signedHeaders ?v of None \<Rightarrow> [] | Some hs \<Rightarrow> hs))"
    by code_simp
  show ?thesis
    using unsigned_subject_is_rejected
            [of "''s1''" "[]" ?text ?G ?sess ?v ?VR ?R ?V "''example.com''" ?K]
          sid inp g v h1 h2 h3 h4 h5 h6
    by blast
qed

section \<open>The tag parser\<close>

lemma isDkimBlock_nonempty: "isDkimBlock raw \<Longrightarrow> raw \<noteq> []"
  by (auto simp: isDkimBlock_def toLowerCase_def)

lemma toLowerCase_empty_iff: "toLowerCase s = [] \<longleftrightarrow> s = []"
  by (simp add: toLowerCase_def)

lemma hList_empty_iff:
  "filter (\<lambda>x. x \<noteq> [])
     (map (\<lambda>x. toLowerCase (trim x)) (splitChar (CHR '':'') (orElse (tags ''h'') []))) = []
   \<longleftrightarrow> noSignedHeaderNames tags"
proof (cases "tags ''h''")
  case None
  then show ?thesis
    by (simp add: noSignedHeaderNames_def orElse_def trim_def toLowerCase_def)
next
  case (Some v)
  then have "orElse (tags ''h'') [] = v" by (simp add: orElse_def)
  with Some show ?thesis
    by (simp add: noSignedHeaderNames_def filter_empty_conv toLowerCase_empty_iff list_all_iff)
qed

lemma b_empty_iff: "stripSpace (orElse (tags ''b'') []) = [] \<longleftrightarrow> noSignatureValue tags"
proof (cases "tags ''b''")
  case None
  then show ?thesis by (simp add: noSignatureValue_def orElse_def stripSpace_def)
next
  case (Some v)
  then have "orElse (tags ''b'') [] = v" by (simp add: orElse_def)
  with Some show ?thesis
    by (simp add: noSignatureValue_def stripSpace_def filter_empty_conv list_all_iff)
qed

lemma falsy_tagMissing: "falsy (tags k) \<longleftrightarrow> tagMissing tags k"
  by (cases "tags k") (simp_all add: falsy_def tagMissing_def)

lemma parseDkimSignature_None_iff:
  assumes "isDkimBlock raw"
  shows "parseDkimSignature raw = None \<longleftrightarrow>
     tagMissing (dkimTags (afterFirst (CHR '':'') raw)) ''d''
     \<or> tagMissing (dkimTags (afterFirst (CHR '':'') raw)) ''s''
     \<or> noSignedHeaderNames (dkimTags (afterFirst (CHR '':'') raw))
     \<or> noSignatureValue (dkimTags (afterFirst (CHR '':'') raw))"
proof -
  from assms have ne: "raw \<noteq> []" by (rule isDkimBlock_nonempty)
  from assms have st: "startsWith (toLowerCase raw) ''dkim-signature:''"
    by (simp add: isDkimBlock_def)
  show ?thesis
    unfolding parseDkimSignature_def Let_def
    using ne st
    by (simp only: if_False if_True not_True_eq_False not_False_eq_True
          hList_empty_iff b_empty_iff falsy_tagMissing split: if_split) simp
qed

lemma verifyHeadersOnly_unusable:
  assumes "parseDkimSignature (snd (parseHeaders (trim headersText))) = None"
  shows "verifyHeadersOnly resolveTxt rsaVerify headersText = failWith ''no dkim-signature header''"
proof (cases "parseHeaders (trim headersText)")
  case (Pair list rawDkim)
  with assms show ?thesis by (simp add: verifyHeadersOnly_def Let_def)
qed

text \<open>
  Claim C7, as amended. For a header block that begins with \<open>DKIM-Signature:\<close> (in any
  case), the tag parser yields no usable tag exactly when, in the tag object, \<open>d\<close> or \<open>s\<close>
  is missing, or there is no non-empty \<open>h\<close> list, or there is no \<open>b\<close> value. The
  headers-only verifier has no set of candidates: it hands the parser the one block
  \<open>parseHeaders\<close> gives it, the first that begins with \<open>DKIM-Signature:\<close>, and when that block
  yields no usable tag the verification ends with the reason \<open>no dkim-signature header\<close>;
  no later signature is tried.
\<close>

theorem unusable_tag_iff_required_missing:
  assumes "isDkimBlock raw"
  shows "(parseDkimSignature raw = None \<longleftrightarrow>
            tagMissing (dkimTags (afterFirst (CHR '':'') raw)) ''d''
            \<or> tagMissing (dkimTags (afterFirst (CHR '':'') raw)) ''s''
            \<or> noSignedHeaderNames (dkimTags (afterFirst (CHR '':'') raw))
            \<or> noSignatureValue (dkimTags (afterFirst (CHR '':'') raw)))
       \<and> (parseDkimSignature (snd (parseHeaders (trim headersText))) = None \<longrightarrow>
            verifyHeadersOnly resolveTxt rsaVerify headersText
              = failWith ''no dkim-signature header'')"
  using parseDkimSignature_None_iff [OF assms]
    verifyHeadersOnly_unusable [of headersText resolveTxt rsaVerify]
  by blast

theorem unusable_tag_iff_required_missing_witness:
  "isDkimBlock ''DKIM-Signature: a=rsa-sha256; d=example.com; s=sel1; h=from:subject''
   \<and> noSignatureValue (dkimTags (afterFirst (CHR '':'')
         ''DKIM-Signature: a=rsa-sha256; d=example.com; s=sel1; h=from:subject''))
   \<and> parseDkimSignature ''DKIM-Signature: a=rsa-sha256; d=example.com; s=sel1; h=from:subject'' = None
   \<and> verifyHeadersOnly (\<lambda>n. Some [[''v=DKIM1; p=QUJD'']]) (\<lambda>k d b. Inr True)
         ''DKIM-Signature: a=rsa-sha256; d=example.com; s=sel1; h=from:subject''
       = failWith ''no dkim-signature header''"
proof -
  let ?raw = "''DKIM-Signature: a=rsa-sha256; d=example.com; s=sel1; h=from:subject''"
  let ?R = "\<lambda>n::string. Some [[''v=DKIM1; p=QUJD'']]"
  let ?V = "\<lambda>(k::string) (d::string) (b::string). (Inr True :: string + bool)"
  have blk: "isDkimBlock ?raw" by code_simp
  have nsv: "noSignatureValue (dkimTags (afterFirst (CHR '':'') ?raw))" by code_simp
  have same: "snd (parseHeaders (trim ?raw)) = ?raw" by code_simp
  note inst = unusable_tag_iff_required_missing [OF blk, of ?raw ?R ?V]
  from inst nsv have none: "parseDkimSignature ?raw = None" by blast
  with inst same have "verifyHeadersOnly ?R ?V ?raw = failWith ''no dkim-signature header''"
    by simp
  with blk nsv none show ?thesis by blast
qed

text \<open>
  The claim as stated fails on a message whose first signature has no \<open>b=\<close> and whose second
  is usable: the first is not set aside for the second, the verification ends there;
  the same message without its first signature verifies.
\<close>

theorem unusable_first_signature_ends_verification:
  "parseDkimSignature ''DKIM-Signature: a=rsa-sha256; d=example.com; s=sel1; h=from:subject'' = None
   \<and> map_option sig_d (parseDkimSignature
         ''DKIM-Signature: a=rsa-sha256; d=example.com; s=sel2; h=from:subject; b=QUJD'')
       = Some ''example.com''
   \<and> verifyHeadersOnly (\<lambda>n. Some [[''v=DKIM1; p=QUJD'']]) (\<lambda>k d b. Inr True)
        (''DKIM-Signature: a=rsa-sha256; d=example.com; s=sel1; h=from:subject'' @ CRLF @
         ''DKIM-Signature: a=rsa-sha256; d=example.com; s=sel2; h=from:subject; b=QUJD'' @ CRLF @
         ''Subject: Verify 7f3a9c21'')
       = failWith ''no dkim-signature header''
   \<and> verifyHeadersOnly (\<lambda>n. Some [[''v=DKIM1; p=QUJD'']]) (\<lambda>k d b. Inr True)
        (''DKIM-Signature: a=rsa-sha256; d=example.com; s=sel2; h=from:subject; b=QUJD'' @ CRLF @
         ''Subject: Verify 7f3a9c21'')
       = \<lparr>ok = True, domain = Some ''example.com'', subject = Some ''Verify 7f3a9c21'',
          signedHeaders = Some [''from'', ''subject''], reason = None\<rparr>"
  by code_simp

lemma verifyHeadersOnly_supported:
  assumes "parseHeaders (trim headersText) = (list, rawDkim)"
    and "parseDkimSignature rawDkim = Some dkim"
    and "toLowerCase (sig_a dkim) = ''rsa-sha256''"
  shows "verifyHeadersOnly resolveTxt rsaVerify headersText =
     (case fetchDkimPublicKey resolveTxt (sig_s dkim) (sig_d dkim) of
        None \<Rightarrow> failWith (''dkim public key not found for '' @ sig_s dkim @ ''._domainkey.'' @ sig_d dkim)
      | Some pubKey \<Rightarrow>
          (case rsaVerify pubKey (signedData list (sig_h dkim) rawDkim) (sig_b dkim) of
             Inl msg \<Rightarrow> failWith msg
           | Inr sigOk \<Rightarrow>
               if \<not> sigOk then failWith ''dkim signature invalid''
               else \<lparr>ok = True, domain = Some (sig_d dkim),
                      subject = (case getHeaderValue list ''subject'' of
                                   None \<Rightarrow> None
                                 | Some v \<Rightarrow> if v = [] then None else Some v),
                      signedHeaders = Some (sig_h dkim), reason = None\<rparr>))"
  using assms by (simp add: verifyHeadersOnly_def Let_def split: option.splits sum.splits)

lemma parseDkimSignature_default_algorithm:
  assumes "isDkimBlock raw"
    and "tagMissing (dkimTags (afterFirst (CHR '':'') raw)) ''a''"
    and "parseDkimSignature raw = Some dkim"
  shows "sig_a dkim = ''rsa-sha256''"
proof -
  from assms(2) have "orElse (dkimTags (afterFirst (CHR '':'') raw) ''a'') ''rsa-sha256'' = ''rsa-sha256''"
    by (auto simp: tagMissing_def orElse_def)
  with assms(3) show ?thesis
    unfolding parseDkimSignature_def Let_def
    by (auto split: if_splits)
qed

text \<open>
  Claim C9. A DKIM-Signature header with no \<open>a=\<close> tag (or an empty one) that has \<open>d=\<close>,
  \<open>s=\<close>, a non-empty \<open>h=\<close> list and \<open>b=\<close> is parsed with the algorithm \<open>rsa-sha256\<close>; when it
  is the signature of the message, \<open>verifyHeadersOnly\<close> passes both the usability and the
  algorithm check and its outcome is that of the key lookup and the RSA-SHA256
  verification.
\<close>

theorem missing_algorithm_defaults_to_rsa_sha256:
  assumes "isDkimBlock raw"
    and "tagMissing (dkimTags (afterFirst (CHR '':'') raw)) ''a''"
    and "\<not> tagMissing (dkimTags (afterFirst (CHR '':'') raw)) ''d''"
    and "\<not> tagMissing (dkimTags (afterFirst (CHR '':'') raw)) ''s''"
    and "\<not> noSignedHeaderNames (dkimTags (afterFirst (CHR '':'') raw))"
    and "\<not> noSignatureValue (dkimTags (afterFirst (CHR '':'') raw))"
  shows "\<exists>dkim. parseDkimSignature raw = Some dkim \<and> sig_a dkim = ''rsa-sha256''
     \<and> (parseHeaders (trim headersText) = (list, raw) \<longrightarrow>
          verifyHeadersOnly resolveTxt rsaVerify headersText =
            (case fetchDkimPublicKey resolveTxt (sig_s dkim) (sig_d dkim) of
               None \<Rightarrow> failWith (''dkim public key not found for ''
                                   @ sig_s dkim @ ''._domainkey.'' @ sig_d dkim)
             | Some pubKey \<Rightarrow>
                 (case rsaVerify pubKey (signedData list (sig_h dkim) raw) (sig_b dkim) of
                    Inl msg \<Rightarrow> failWith msg
                  | Inr sigOk \<Rightarrow>
                      if \<not> sigOk then failWith ''dkim signature invalid''
                      else \<lparr>ok = True, domain = Some (sig_d dkim),
                             subject = (case getHeaderValue list ''subject'' of
                                          None \<Rightarrow> None
                                        | Some v \<Rightarrow> if v = [] then None else Some v),
                             signedHeaders = Some (sig_h dkim), reason = None\<rparr>)))"
proof -
  from parseDkimSignature_None_iff [OF assms(1)] assms(3-6)
  have "parseDkimSignature raw \<noteq> None" by blast
  then obtain dkim where dkim: "parseDkimSignature raw = Some dkim" by blast
  from parseDkimSignature_default_algorithm [OF assms(1,2) dkim]
  have a: "sig_a dkim = ''rsa-sha256''" .
  have lc: "toLowerCase (sig_a dkim) = ''rsa-sha256''"
    unfolding a by code_simp
  show ?thesis
    using dkim a verifyHeadersOnly_supported [OF _ dkim lc, of headersText list resolveTxt rsaVerify]
    by blast
qed

theorem missing_algorithm_defaults_to_rsa_sha256_witness:
  "map_option sig_a (parseDkimSignature ''DKIM-Signature: d=example.com; s=sel1; h=from:subject; b=QUJD'')
     = Some ''rsa-sha256''
   \<and> verifyHeadersOnly (\<lambda>n. Some [[''v=DKIM1; p=QUJD'']]) (\<lambda>k d b. Inr True)
        (''DKIM-Signature: d=example.com; s=sel1; h=from:subject; b=QUJD'' @ CRLF @
         ''Subject: Verify 7f3a9c21'')
     = \<lparr>ok = True, domain = Some ''example.com'', subject = Some ''Verify 7f3a9c21'',
        signedHeaders = Some [''from'', ''subject''], reason = None\<rparr>"
proof -
  let ?raw = "''DKIM-Signature: d=example.com; s=sel1; h=from:subject; b=QUJD''"
  let ?text = "?raw @ CRLF @ ''Subject: Verify 7f3a9c21''"
  let ?list = "[\<lparr>hdr_name = ''DKIM-Signature'',
                  hdr_value = ''d=example.com; s=sel1; h=from:subject; b=QUJD''\<rparr>,
                \<lparr>hdr_name = ''Subject'', hdr_value = ''Verify 7f3a9c21''\<rparr>]"
  let ?R = "\<lambda>n::string. Some [[''v=DKIM1; p=QUJD'']]"
  let ?V = "\<lambda>(k::string) (d::string) (b::string). (Inr True :: string + bool)"
  let ?tags = "dkimTags (afterFirst (CHR '':'') ?raw)"
  have h1: "isDkimBlock ?raw" by code_simp
  have h2: "tagMissing ?tags ''a''" by code_simp
  have h3: "\<not> tagMissing ?tags ''d''" by code_simp
  have h4: "\<not> tagMissing ?tags ''s''" by code_simp
  have h5: "\<not> noSignedHeaderNames ?tags" by code_simp
  have h6: "\<not> noSignatureValue ?tags" by code_simp
  have ph: "parseHeaders (trim ?text) = (?list, ?raw)" by code_simp
  from missing_algorithm_defaults_to_rsa_sha256 [OF h1 h2 h3 h4 h5 h6, of ?text ?list ?R ?V] ph
  obtain dkim where
    dkim: "parseDkimSignature ?raw = Some dkim" "sig_a dkim = ''rsa-sha256''"
    by blast
  then have first: "map_option sig_a (parseDkimSignature ?raw) = Some ''rsa-sha256''" by simp
  have second: "verifyHeadersOnly ?R ?V ?text
     = \<lparr>ok = True, domain = Some ''example.com'', subject = Some ''Verify 7f3a9c21'',
        signedHeaders = Some [''from'', ''subject''], reason = None\<rparr>" by code_simp
  from first second show ?thesis by blast
qed

section \<open>The key lookup\<close>

lemma pTagStartsAt_here:
  assumes "bnd \<longleftrightarrow> pre = [] \<or> \<not> isWordChar (last pre)"
  shows "pTagStartsAt (pre @ c # cs) (length pre) \<longleftrightarrow>
     bnd \<and> c = CHR ''p''
     \<and> (case cs of e # x # _ \<Rightarrow> e = CHR ''='' \<and> x \<noteq> CHR '';'' \<and> \<not> isSpace x | _ \<Rightarrow> False)"
proof -
  have before: "(length pre = 0 \<or> \<not> isWordChar ((pre @ c # cs) ! (length pre - 1))) \<longleftrightarrow> bnd"
  proof (cases "pre = []")
    case True
    with assms show ?thesis by simp
  next
    case False
    then have "(pre @ c # cs) ! (length pre - 1) = last pre"
      by (simp add: nth_append last_conv_nth)
    with False assms show ?thesis by simp
  qed
  show ?thesis
  proof (cases cs)
    case Nil
    then show ?thesis by (simp add: pTagStartsAt_def)
  next
    case (Cons e r)
    show ?thesis
    proof (cases r)
      case Nil
      with Cons show ?thesis by (simp add: pTagStartsAt_def)
    next
      case (Cons x r')
      have "(pre @ c # e # x # r') ! length pre = c"
        and "(pre @ c # e # x # r') ! (length pre + 1) = e"
        and "(pre @ c # e # x # r') ! (length pre + 2) = x"
        by (simp_all add: nth_append)
      with before \<open>cs = e # r\<close> Cons show ?thesis
        unfolding pTagStartsAt_def by auto
    qed
  qed
qed

lemma matchP_from:
  assumes "bnd \<longleftrightarrow> pre = [] \<or> \<not> isWordChar (last pre)"
  shows "matchP bnd s =
     map_option (pValueAt (pre @ s))
       (find (pTagStartsAt (pre @ s)) [length pre..<length pre + length s])"
  using assms
proof (induction s arbitrary: pre bnd)
  case Nil
  then show ?case by simp
next
  case (Cons c cs)
  let ?here = "bnd \<and> c = CHR ''p''
     \<and> (case cs of e # x # _ \<Rightarrow> e = CHR ''='' \<and> x \<noteq> CHR '';'' \<and> \<not> isSpace x | _ \<Rightarrow> False)"
  have "length pre < length pre + length (c # cs)" by simp
  then have "[length pre..<length pre + length (c # cs)]
      = length pre # [Suc (length pre)..<length pre + length (c # cs)]"
    by (rule upt_conv_Cons)
  then have upt: "[length pre..<length pre + length (c # cs)]
      = length pre # [length (pre @ [c])..<length (pre @ [c]) + length cs]"
    by simp
  have here: "pTagStartsAt (pre @ c # cs) (length pre) \<longleftrightarrow> ?here"
    by (rule pTagStartsAt_here [OF Cons.prems])
  show ?case
  proof (cases ?here)
    case True
    have "pValueAt (pre @ c # cs) (length pre)
        = takeWhile (\<lambda>x. x \<noteq> CHR '';'' \<and> \<not> isSpace x) (drop 1 cs)"
      by (simp add: pValueAt_def)
    moreover have "matchP bnd (c # cs)
        = Some (takeWhile (\<lambda>x. x \<noteq> CHR '';'' \<and> \<not> isSpace x) (drop 1 cs))"
      using True by simp
    moreover have "find (pTagStartsAt (pre @ c # cs)) [length pre..<length pre + length (c # cs)]
        = Some (length pre)"
      unfolding upt using here True by simp
    ultimately show ?thesis by simp
  next
    case False
    have next_bnd: "(\<not> isWordChar c) \<longleftrightarrow> pre @ [c] = [] \<or> \<not> isWordChar (last (pre @ [c]))"
      by simp
    have "matchP bnd (c # cs) = matchP (\<not> isWordChar c) cs"
      using False by auto
    also have "\<dots> = map_option (pValueAt ((pre @ [c]) @ cs))
        (find (pTagStartsAt ((pre @ [c]) @ cs)) [length (pre @ [c])..<length (pre @ [c]) + length cs])"
      by (rule Cons.IH [OF next_bnd])
    also have "find (pTagStartsAt ((pre @ [c]) @ cs)) [length (pre @ [c])..<length (pre @ [c]) + length cs]
        = find (pTagStartsAt (pre @ c # cs)) [length pre..<length pre + length (c # cs)]"
      unfolding upt using here False by simp
    finally show ?thesis by simp
  qed
qed

lemma matchP_firstPTag: "matchP True flat = map_option (pValueAt flat) (firstPTag flat)"
  using matchP_from [of True "[]" flat] by (simp add: firstPTag_def)

lemma firstPTag_None_iff:
  "firstPTag flat = None \<longleftrightarrow> (\<forall>i<length flat. \<not> pTagStartsAt flat i)"
  by (auto simp: firstPTag_def find_None_iff)

lemma firstPTag_Some_first:
  assumes "firstPTag flat = Some i"
  shows "pTagStartsAt flat i \<and> (\<forall>j<i. \<not> pTagStartsAt flat j)"
proof -
  from assms obtain a where a: "a < length [0..<length flat]"
    "pTagStartsAt flat ([0..<length flat] ! a)" "i = [0..<length flat] ! a"
    "\<forall>b<a. \<not> pTagStartsAt flat ([0..<length flat] ! b)"
    unfolding firstPTag_def find_Some_iff by blast
  from a(1,3) have ia: "i = a" by simp
  have "\<not> pTagStartsAt flat j" if "j < i" for j
  proof -
    from that ia a(1) have "[0..<length flat] ! j = j" by simp
    with a(4) that ia show ?thesis by auto
  qed
  with a(2) a(3) show ?thesis by simp
qed

lemma fetchDkimPublicKey_firstPTag:
  "fetchDkimPublicKey resolveTxt selector domainName =
     (case resolveTxt (selector @ ''._domainkey.'' @ domainName) of
        None \<Rightarrow> None
      | Some records \<Rightarrow>
          map_option (\<lambda>i. wrapPem (pValueAt (concat (map concat records)) i))
            (firstPTag (concat (map concat records))))"
  by (simp add: fetchDkimPublicKey_def Let_def matchP_firstPTag option.map_comp comp_def
        split: option.splits)

lemma key_not_found_reason:
  assumes "parseHeaders (trim headersText) = (list, rawDkim)"
    and "parseDkimSignature rawDkim = Some dkim"
    and "toLowerCase (sig_a dkim) = ''rsa-sha256''"
    and "fetchDkimPublicKey resolveTxt (sig_s dkim) (sig_d dkim) = None"
  shows "verifyHeadersOnly resolveTxt rsaVerify headersText =
     failWith (''dkim public key not found for '' @ sig_s dkim @ ''._domainkey.'' @ sig_d dkim)"
  using verifyHeadersOnly_supported [OF assms(1-3), of resolveTxt rsaVerify] assms(4)
  by simp

text \<open>
  Claim C6, as amended. The key lookup returns \<open>null\<close> in exactly two cases: the resolver
  gives no TXT record for \<open><selector>._domainkey.<domain>\<close> (or fails in any way), or the
  concatenated TXT fragments hold no \<open>p=\<close> that stands at a word boundary and is followed
  at once by a character other than \<open>;\<close> and white space. For a \<open>null\<close> key
  \<open>verifyHeadersOnly\<close> returns the one reason
  \<open>dkim public key not found for <selector>._domainkey.<domain>\<close>, the same in both cases.
  In every other case the key is the PEM wrapping of the characters after the first such
  \<open>p=\<close> up to the next \<open>;\<close> or white space, whatever they are: nothing checks that they are
  base64.
\<close>

theorem key_lookup_failures:
  "fetchDkimPublicKey resolveTxt selector domainName =
     (case resolveTxt (selector @ ''._domainkey.'' @ domainName) of
        None \<Rightarrow> None
      | Some records \<Rightarrow>
          map_option (\<lambda>i. wrapPem (pValueAt (concat (map concat records)) i))
            (firstPTag (concat (map concat records))))
   \<and> (fetchDkimPublicKey resolveTxt selector domainName = None \<longleftrightarrow>
        resolveTxt (selector @ ''._domainkey.'' @ domainName) = None
        \<or> (\<exists>records. resolveTxt (selector @ ''._domainkey.'' @ domainName) = Some records
              \<and> (\<forall>i<length (concat (map concat records)).
                    \<not> pTagStartsAt (concat (map concat records)) i)))
   \<and> (firstPTag flat = Some i \<longrightarrow> pTagStartsAt flat i \<and> (\<forall>j<i. \<not> pTagStartsAt flat j))
   \<and> (parseHeaders (trim headersText) = (list, rawDkim)
        \<and> parseDkimSignature rawDkim = Some dkim
        \<and> toLowerCase (sig_a dkim) = ''rsa-sha256''
        \<and> fetchDkimPublicKey resolveTxt (sig_s dkim) (sig_d dkim) = None \<longrightarrow>
      verifyHeadersOnly resolveTxt rsaVerify headersText =
        failWith (''dkim public key not found for '' @ sig_s dkim @ ''._domainkey.'' @ sig_d dkim))"
proof (intro conjI)
  show "fetchDkimPublicKey resolveTxt selector domainName =
     (case resolveTxt (selector @ ''._domainkey.'' @ domainName) of
        None \<Rightarrow> None
      | Some records \<Rightarrow>
          map_option (\<lambda>i. wrapPem (pValueAt (concat (map concat records)) i))
            (firstPTag (concat (map concat records))))"
    by (rule fetchDkimPublicKey_firstPTag)
  show "fetchDkimPublicKey resolveTxt selector domainName = None \<longleftrightarrow>
        resolveTxt (selector @ ''._domainkey.'' @ domainName) = None
        \<or> (\<exists>records. resolveTxt (selector @ ''._domainkey.'' @ domainName) = Some records
              \<and> (\<forall>i<length (concat (map concat records)).
                    \<not> pTagStartsAt (concat (map concat records)) i))"
    unfolding fetchDkimPublicKey_firstPTag
    by (cases "resolveTxt (selector @ ''._domainkey.'' @ domainName)")
       (simp_all add: firstPTag_None_iff)
  show "firstPTag flat = Some i \<longrightarrow> pTagStartsAt flat i \<and> (\<forall>j<i. \<not> pTagStartsAt flat j)"
    using firstPTag_Some_first [of flat i] by blast
  show "parseHeaders (trim headersText) = (list, rawDkim)
        \<and> parseDkimSignature rawDkim = Some dkim
        \<and> toLowerCase (sig_a dkim) = ''rsa-sha256''
        \<and> fetchDkimPublicKey resolveTxt (sig_s dkim) (sig_d dkim) = None \<longrightarrow>
      verifyHeadersOnly resolveTxt rsaVerify headersText =
        failWith (''dkim public key not found for '' @ sig_s dkim @ ''._domainkey.'' @ sig_d dkim)"
    using key_not_found_reason [of headersText list rawDkim dkim resolveTxt rsaVerify]
    by blast
qed

theorem key_lookup_failures_witness:
  "fetchDkimPublicKey (\<lambda>n. None) ''sel1'' ''example.com'' = None
   \<and> fetchDkimPublicKey (\<lambda>n. Some [[''v=DKIM1; k=rsa'']]) ''sel1'' ''example.com'' = None
   \<and> fetchDkimPublicKey (\<lambda>n. Some [[''v=DKIM1; p= QUJD'']]) ''sel1'' ''example.com'' = None
   \<and> fetchDkimPublicKey (\<lambda>n. Some [[''v=DKIM1; k=rsa; n=x-p=abc'']]) ''sel1'' ''example.com''
       = Some (wrapPem ''abc'')
   \<and> fetchDkimPublicKey (\<lambda>n. Some [[''v=DKIM1; p=QU'', ''JD;'']]) ''sel1'' ''example.com''
       = Some (wrapPem ''QUJD'')
   \<and> fetchDkimPublicKey (\<lambda>n. Some [[''v=DKIM1; p=!!!'']]) ''sel1'' ''example.com''
       = Some (wrapPem ''!!!'')
   \<and> verifyHeadersOnly (\<lambda>n. None) (\<lambda>k d b. Inr True)
        ''DKIM-Signature: a=rsa-sha256; d=example.com; s=sel1; h=from:subject; b=QUJD''
       = failWith ''dkim public key not found for sel1._domainkey.example.com''
   \<and> verifyHeadersOnly (\<lambda>n. Some [[''v=DKIM1; k=rsa'']]) (\<lambda>k d b. Inr True)
        ''DKIM-Signature: a=rsa-sha256; d=example.com; s=sel1; h=from:subject; b=QUJD''
       = failWith ''dkim public key not found for sel1._domainkey.example.com''"
proof -
  let ?raw = "''DKIM-Signature: a=rsa-sha256; d=example.com; s=sel1; h=from:subject; b=QUJD''"
  let ?list = "[\<lparr>hdr_name = ''DKIM-Signature'',
                  hdr_value = ''a=rsa-sha256; d=example.com; s=sel1; h=from:subject; b=QUJD''\<rparr>]"
  let ?dkim = "\<lparr>sig_a = ''rsa-sha256'', sig_d = ''example.com'', sig_s = ''sel1'',
                 sig_h = [''from'', ''subject''], sig_b = ''QUJD'', sig_c = ''relaxed/relaxed''\<rparr>"
  let ?R1 = "\<lambda>n::string. (None :: string list list option)"
  let ?R2 = "\<lambda>n::string. Some [[''v=DKIM1; k=rsa'']]"
  let ?R3 = "\<lambda>n::string. Some [[''v=DKIM1; p= QUJD'']]"
  let ?R4 = "\<lambda>n::string. Some [[''v=DKIM1; k=rsa; n=x-p=abc'']]"
  let ?R5 = "\<lambda>n::string. Some [[''v=DKIM1; p=QU'', ''JD;'']]"
  let ?R6 = "\<lambda>n::string. Some [[''v=DKIM1; p=!!!'']]"
  let ?V = "\<lambda>(k::string) (d::string) (b::string). (Inr True :: string + bool)"
  have ph: "parseHeaders (trim ?raw) = (?list, ?raw)" by code_simp
  have pd: "parseDkimSignature ?raw = Some ?dkim" by code_simp
  have alg: "toLowerCase (sig_a ?dkim) = ''rsa-sha256''" by code_simp
  have nm: "sig_s ?dkim @ ''._domainkey.'' @ sig_d ?dkim = ''sel1._domainkey.example.com''"
    by simp
  note i1 = key_lookup_failures [where resolveTxt = ?R1 and selector = "''sel1''"
      and domainName = "''example.com''" and headersText = ?raw and list = ?list
      and rawDkim = ?raw and dkim = ?dkim and rsaVerify = ?V]
  note i2 = key_lookup_failures [where resolveTxt = ?R2 and selector = "''sel1''"
      and domainName = "''example.com''" and headersText = ?raw and list = ?list
      and rawDkim = ?raw and dkim = ?dkim and rsaVerify = ?V]
  note i3 = key_lookup_failures [where resolveTxt = ?R3 and selector = "''sel1''"
      and domainName = "''example.com''"]
  note i4 = key_lookup_failures [where resolveTxt = ?R4 and selector = "''sel1''"
      and domainName = "''example.com''"]
  note i5 = key_lookup_failures [where resolveTxt = ?R5 and selector = "''sel1''"
      and domainName = "''example.com''"]
  note i6 = key_lookup_failures [where resolveTxt = ?R6 and selector = "''sel1''"
      and domainName = "''example.com''"]
  have f2: "firstPTag (concat (map concat [[''v=DKIM1; k=rsa'']])) = None" by code_simp
  have f3: "firstPTag (concat (map concat [[''v=DKIM1; p= QUJD'']])) = None" by code_simp
  have f4: "map_option (pValueAt (concat (map concat [[''v=DKIM1; k=rsa; n=x-p=abc'']])))
      (firstPTag (concat (map concat [[''v=DKIM1; k=rsa; n=x-p=abc'']]))) = Some ''abc''"
    by code_simp
  have f5: "map_option (pValueAt (concat (map concat [[''v=DKIM1; p=QU'', ''JD;'']])))
      (firstPTag (concat (map concat [[''v=DKIM1; p=QU'', ''JD;'']]))) = Some ''QUJD''"
    by code_simp
  have f6: "map_option (pValueAt (concat (map concat [[''v=DKIM1; p=!!!'']])))
      (firstPTag (concat (map concat [[''v=DKIM1; p=!!!'']]))) = Some ''!!!''"
    by code_simp
  have wrap: "map_option (\<lambda>i. wrapPem (pValueAt flat i)) t = map_option wrapPem (map_option (pValueAt flat) t)"
    for flat t
    by (simp add: option.map_comp comp_def)
  from i1 have a: "fetchDkimPublicKey ?R1 ''sel1'' ''example.com'' = None" by simp
  from i2 f2 have b: "fetchDkimPublicKey ?R2 ''sel1'' ''example.com'' = None" by simp
  from i3 f3 have c: "fetchDkimPublicKey ?R3 ''sel1'' ''example.com'' = None" by simp
  from i4 have "fetchDkimPublicKey ?R4 ''sel1'' ''example.com''
      = map_option wrapPem (map_option (pValueAt (concat (map concat [[''v=DKIM1; k=rsa; n=x-p=abc'']])))
          (firstPTag (concat (map concat [[''v=DKIM1; k=rsa; n=x-p=abc'']]))))"
    by (simp only: wrap option.case)
  then have d: "fetchDkimPublicKey ?R4 ''sel1'' ''example.com'' = Some (wrapPem ''abc'')"
    by (simp only: f4 option.map)
  from i5 have "fetchDkimPublicKey ?R5 ''sel1'' ''example.com''
      = map_option wrapPem (map_option (pValueAt (concat (map concat [[''v=DKIM1; p=QU'', ''JD;'']])))
          (firstPTag (concat (map concat [[''v=DKIM1; p=QU'', ''JD;'']]))))"
    by (simp only: wrap option.case)
  then have e: "fetchDkimPublicKey ?R5 ''sel1'' ''example.com'' = Some (wrapPem ''QUJD'')"
    by (simp only: f5 option.map)
  from i6 have "fetchDkimPublicKey ?R6 ''sel1'' ''example.com''
      = map_option wrapPem (map_option (pValueAt (concat (map concat [[''v=DKIM1; p=!!!'']])))
          (firstPTag (concat (map concat [[''v=DKIM1; p=!!!'']]))))"
    by (simp only: wrap option.case)
  then have f: "fetchDkimPublicKey ?R6 ''sel1'' ''example.com'' = Some (wrapPem ''!!!'')"
    by (simp only: f6 option.map)
  from a have a': "fetchDkimPublicKey ?R1 (sig_s ?dkim) (sig_d ?dkim) = None" by simp
  from b have b': "fetchDkimPublicKey ?R2 (sig_s ?dkim) (sig_d ?dkim) = None" by simp
  from i1 ph pd alg a' have g: "verifyHeadersOnly ?R1 ?V ?raw =
      failWith (''dkim public key not found for '' @ sig_s ?dkim @ ''._domainkey.'' @ sig_d ?dkim)"
    by blast
  from i2 ph pd alg b' have h: "verifyHeadersOnly ?R2 ?V ?raw =
      failWith (''dkim public key not found for '' @ sig_s ?dkim @ ''._domainkey.'' @ sig_d ?dkim)"
    by blast
  from a b c d e f g h show ?thesis by simp
qed

text \<open>
  The claim as stated fails on key material that is not base64: the lookup returns a key
  for it, and the outcome of \<open>verifyHeadersOnly\<close> is then the verifier's (here the message
  of the error it throws on the key), not the key-not-found reason.
\<close>

theorem malformed_key_is_not_key_not_found:
  "\<not> isBase64 ''!!!''
   \<and> fetchDkimPublicKey (\<lambda>n. Some [[''v=DKIM1; p=!!!'']]) ''sel1'' ''example.com''
       = Some (''-----BEGIN PUBLIC KEY-----'' @ [LF] @ ''!!!'' @ [LF] @ ''-----END PUBLIC KEY-----'' @ [LF])
   \<and> verifyHeadersOnly (\<lambda>n. Some [[''v=DKIM1; p=!!!'']])
        (\<lambda>k d b. Inl ''error:1E08010C:DECODER routines::unsupported'')
        ''DKIM-Signature: a=rsa-sha256; d=example.com; s=sel1; h=from:subject; b=QUJD''
       = failWith ''error:1E08010C:DECODER routines::unsupported''"
  by code_simp

section \<open>Continuation lines\<close>

lemma parseHeadersLoop_continuation:
  assumes "startsWsp line"
  shows "parseHeadersLoop list rawBlocks block (line # lines) =
     parseHeadersLoop (appendToCurrent (trim line) list) rawBlocks (block @ CRLF @ line) lines"
  using assms by simp

lemma appendToCurrent_value:
  assumes "list \<noteq> []"
  shows "hdr_value (last (appendToCurrent t list)) = hdr_value (last list) @ t"
  using assms by (simp add: appendToCurrent_def)

text \<open>
  Claim C8. In \<open>parseHeaders\<close> of \<open>dkim.ts\<close> a continuation line is appended to the block
  with its line break and leading white space, but to the value with no space between:
  the folded header \<open>Subject: Verify\<close>, \<open>7f3a9c21\<close> gets the value \<open>Verify7f3a9c21\<close>. The
  script's \<open>parseHeaders\<close> joins the same lines with one space.
\<close>

theorem folded_value_joined_without_space:
  "fst (parseHeaders (''Subject: Verify'' @ CRLF @ '' 7f3a9c21''))
     = [\<lparr>hdr_name = ''Subject'', hdr_value = ''Verify7f3a9c21''\<rparr>]
   \<and> snd (parseHeaders (''DKIM-Signature: d=example.com;'' @ CRLF @ [TAB] @ ''b=QUJD''))
     = ''DKIM-Signature: d=example.com;'' @ CRLF @ [TAB] @ ''b=QUJD''
   \<and> map h_value (parseHeaders_idx (''Subject: Verify'' @ CRLF @ '' 7f3a9c21''))
     = [''Verify 7f3a9c21'']
   \<and> map h_raw (parseHeaders_idx (''Subject: Verify'' @ CRLF @ '' 7f3a9c21''))
     = [''Subject: Verify'' @ CRLF @ CRLF @ '' 7f3a9c21'']"
  by code_simp

section \<open>The last line of the signing input\<close>

lemma startsWith_append: "startsWith (p @ s) p"
  by (induction p) simp_all

lemma endsWith_append: "endsWith (s @ p) p"
  by (simp add: endsWith_def startsWith_append)

lemma canonicalizeHeader_ends_with_CRLF: "endsWith (canonicalizeHeader hdr headerMode) CRLF"
proof -
  have "endsWith (nm @ '':'' @ v @ CRLF) CRLF" for nm v :: string
    using endsWith_append [of "nm @ '':'' @ v" CRLF] by simp
  then show ?thesis
    unfolding canonicalizeHeader_def Let_def
    by (auto simp: endsWith_append)
qed

lemma assembled_block_ends_with_CRLF:
  assumes "assembleCanonicalizedHeaderBlock (Some chosen) headersList = Inr (Some block)"
  shows "endsWith block CRLF"
proof -
  from assms obtain pieces hdr headerMode where
    block: "block = concat (pieces @ [canonicalizeHeader hdr headerMode])"
    unfolding assembleCanonicalizedHeaderBlock_def Let_def
    by (auto split: sum.splits)
  from canonicalizeHeader_ends_with_CRLF [of hdr headerMode]
  have "startsWith (rev (canonicalizeHeader hdr headerMode)) (rev CRLF)"
    by (simp add: endsWith_def)
  then have "startsWith (rev (canonicalizeHeader hdr headerMode) @ rev (concat pieces)) (rev CRLF)"
    by (cases "rev (canonicalizeHeader hdr headerMode)"; cases "tl (rev (canonicalizeHeader hdr headerMode))")
       (auto simp: CRLF_def)
  then show ?thesis
    by (simp add: block endsWith_def)
qed

text \<open>
  Claim C2. The script's \<open>assembleCanonicalizedHeaderBlock\<close> passes the DKIM-Signature
  header with its \<open>b=\<close> emptied through \<open>canonicalizeHeader\<close>, which ends every header with
  CR LF: the block it returns ends with CR LF after the DKIM-Signature line. The signed
  data of \<open>verifyHeadersOnly\<close> for the same message ends with \<open>b=\<close> and no line break. In
  \<open>verifyHeadersOnly\<close> the pattern that empties \<open>b=\<close> wants the \<open>=\<close> right after the \<open>b\<close>: a
  tag written \<open>b = QUJD\<close>, which the tag parser reads as the signature, stays in the
  signed data.
\<close>

theorem block_ends_with_line_break:
  "snd (snd (projr (parseEmailRawBuffer
       (''From: a@example.com'' @ CRLF @
        ''DKIM-Signature: a=rsa-sha256; c=relaxed/relaxed; d=example.com; s=sel1; h=from; b=QUJD''
        @ CRLF @ CRLF @ ''body''))))
     = Some (''from:a@example.com'' @ CRLF @
             ''dkim-signature:a=rsa-sha256; c=relaxed/relaxed; d=example.com; s=sel1; h=from;b=''
             @ CRLF)
   \<and> signedData [\<lparr>hdr_name = ''From'', hdr_value = ''a@example.com''\<rparr>] [''from'']
        ''DKIM-Signature: a=rsa-sha256; c=relaxed/relaxed; d=example.com; s=sel1; h=from; b=QUJD''
     = ''from:a@example.com'' @ CRLF @
       ''dkim-signature:a=rsa-sha256; c=relaxed/relaxed; d=example.com; s=sel1; h=from; b=''
   \<and> map_option sig_b (parseDkimSignature ''DKIM-Signature: d=example.com; s=sel1; h=from; b = QUJD'')
     = Some ''QUJD''
   \<and> signedData [\<lparr>hdr_name = ''From'', hdr_value = ''a@example.com''\<rparr>] [''from'']
        ''DKIM-Signature: d=example.com; s=sel1; h=from; b = QUJD''
     = ''from:a@example.com'' @ CRLF @ ''dkim-signature:d=example.com; s=sel1; h=from; b = QUJD''"
  by code_simp

section \<open>Choosing among several signatures\<close>

lemma firstByDomain_find:
  assumes "list_all (\<lambda>p. pd_tags p ''d'' \<noteq> Some TagTrue) ps" and "claimed \<noteq> []"
  shows "firstByDomain claimed ps = Inr (find (dEqualsClaimed claimed) ps)"
  using assms(1)
proof (induction ps)
  case Nil
  then show ?case by simp
next
  case (Cons p ps)
  then have IH: "firstByDomain claimed ps = Inr (find (dEqualsClaimed claimed) ps)"
    and p: "pd_tags p ''d'' \<noteq> Some TagTrue"
    by simp_all
  show ?case
  proof (cases "pd_tags p ''d''")
    case None
    then have "\<not> dEqualsClaimed claimed p" by (simp add: dEqualsClaimed_def)
    with None show ?thesis by (simp add: IH)
  next
    case (Some t)
    with p obtain d where t: "t = TagStr d" by (cases t) auto
    have ne: "toLowerCase d = toLowerCase claimed \<Longrightarrow> d \<noteq> []"
      using assms(2) by (auto simp: toLowerCase_def)
    have "dEqualsClaimed claimed p \<longleftrightarrow> toLowerCase d = toLowerCase claimed"
      using Some t by (simp add: dEqualsClaimed_def)
    with ne show ?thesis
      using Some t by (auto simp: IH)
  qed
qed

lemma firstSupported_find:
  assumes "list_all (\<lambda>p. pd_tags p ''a'' \<noteq> Some TagTrue) ps"
  shows "firstSupported ps = Inr (find usesSupportedAlgorithm ps)"
  using assms
proof (induction ps)
  case Nil
  then show ?case by simp
next
  case (Cons p ps)
  then have IH: "firstSupported ps = Inr (find usesSupportedAlgorithm ps)"
    and p: "pd_tags p ''a'' \<noteq> Some TagTrue"
    by simp_all
  show ?case
  proof (cases "pd_tags p ''a''")
    case None
    then have "\<not> usesSupportedAlgorithm p" by (simp add: usesSupportedAlgorithm_def)
    with None show ?thesis by (simp add: IH)
  next
    case (Some t)
    with p obtain a where t: "t = TagStr a" by (cases t) auto
    have ne: "toLowerCase a = ''rsa-sha256'' \<or> toLowerCase a = ''ed25519-sha256'' \<Longrightarrow> a \<noteq> []"
      by (auto simp: toLowerCase_def)
    have "usesSupportedAlgorithm p \<longleftrightarrow>
        toLowerCase a = ''rsa-sha256'' \<or> toLowerCase a = ''ed25519-sha256''"
      using Some t by (simp add: usesSupportedAlgorithm_def)
    with ne show ?thesis
      using Some t by (auto simp: IH supported_def)
  qed
qed

lemma chooseDKIMSignature_policyChoice:
  assumes "list_all (\<lambda>p. pd_tags p ''d'' \<noteq> Some TagTrue \<and> pd_tags p ''a'' \<noteq> Some TagTrue) ps"
    and "claimed \<noteq> []"
  shows "chooseDKIMSignature ps (Some claimed) = Inr (policyChoice ps claimed)"
proof -
  from assms(1) have d: "list_all (\<lambda>p. pd_tags p ''d'' \<noteq> Some TagTrue) ps"
    and a: "list_all (\<lambda>p. pd_tags p ''a'' \<noteq> Some TagTrue) ps"
    by (simp_all add: list_all_iff)
  show ?thesis
  proof (cases ps)
    case Nil
    then show ?thesis by (simp add: chooseDKIMSignature_def policyChoice_def)
  next
    case (Cons p0 rest)
    have "chooseDKIMSignature ps (Some claimed) =
       (case find (dEqualsClaimed claimed) ps of
          Some p \<Rightarrow> Inr (Some p)
        | None \<Rightarrow> (case find usesSupportedAlgorithm ps of
                      Some p \<Rightarrow> Inr (Some p)
                    | None \<Rightarrow> Inr (Some p0)))"
      unfolding chooseDKIMSignature_def
      using assms(2) firstByDomain_find [OF d assms(2)] firstSupported_find [OF a]
      by (simp add: Cons falsy_def orElse_def split: option.splits)
    then show ?thesis
      by (simp add: policyChoice_def Cons split: option.splits)
  qed
qed

lemma parseEmailRawBuffer_chooses_first:
  assumes "parseEmailRawBuffer rawBytes = Inr (ps, chosen, block)"
  shows "chosen = (case ps of [] \<Rightarrow> None | p # _ \<Rightarrow> Some p)"
  using assms unfolding parseEmailRawBuffer_def Let_def
  by (auto split: prod.splits sum.splits)

lemma verifyHeadersOnly_domain_of_rawDkim:
  assumes "ok (verifyHeadersOnly resolveTxt rsaVerify headersText)"
  shows "\<exists>dkim. parseDkimSignature (snd (parseHeaders (trim headersText))) = Some dkim
     \<and> domain (verifyHeadersOnly resolveTxt rsaVerify headersText) = Some (sig_d dkim)"
  using assms unfolding verifyHeadersOnly_def Let_def
  by (auto simp: failWith_def split: prod.splits option.splits sum.splits if_splits)

text \<open>
  Claim C5, as amended. \<open>chooseDKIMSignature\<close>, given the parsed DKIM-Signature headers of
  a message (each \<open>d\<close> and \<open>a\<close> tag, where present, written with \<open>=\<close>) and a non-empty claimed
  domain, selects by the policy: the first whose \<open>d=\<close> equals the claimed domain in lower
  case, else the first whose \<open>a=\<close> is \<open>rsa-sha256\<close> or \<open>ed25519-sha256\<close>, else the first. The
  flows do not call it: \<open>parseEmailRawBuffer\<close> chooses the first DKIM-Signature header,
  and the domain \<open>verifyHeadersOnly\<close> verifies is that of the one block \<open>parseHeaders\<close>
  hands it, the first that begins with \<open>DKIM-Signature:\<close>.
\<close>

theorem policy_is_in_chooseDKIMSignature_only:
  assumes "list_all (\<lambda>p. pd_tags p ''d'' \<noteq> Some TagTrue \<and> pd_tags p ''a'' \<noteq> Some TagTrue) parsedDKIMs"
    and "claimed \<noteq> []"
  shows "chooseDKIMSignature parsedDKIMs (Some claimed) = Inr (policyChoice parsedDKIMs claimed)
     \<and> (parseEmailRawBuffer rawBytes = Inr (ps, chosen, block) \<longrightarrow>
          chosen = (case ps of [] \<Rightarrow> None | p # _ \<Rightarrow> Some p))
     \<and> (ok (verifyHeadersOnly resolveTxt rsaVerify headersText) \<longrightarrow>
          (\<exists>dkim. parseDkimSignature (snd (parseHeaders (trim headersText))) = Some dkim
             \<and> domain (verifyHeadersOnly resolveTxt rsaVerify headersText) = Some (sig_d dkim)))"
  using chooseDKIMSignature_policyChoice [OF assms]
    parseEmailRawBuffer_chooses_first [of rawBytes ps chosen block]
    verifyHeadersOnly_domain_of_rawDkim [of resolveTxt rsaVerify headersText]
  by blast

theorem policy_is_in_chooseDKIMSignature_only_witness:
  "map_option pd_raw (projr (chooseDKIMSignature
       (fst (projr (parseEmailRawBuffer
          (''DKIM-Signature: a=rsa-sha1; d=other.example; s=sel1; h=from:subject; b=QUJD'' @ CRLF @
           ''DKIM-Signature: a=rsa-sha256; d=Example.COM; s=sel2; h=from:subject; b=REVG'' @ CRLF @
           ''Subject: Verify 7f3a9c21'' @ CRLF @ CRLF @ ''body''))))
       (Some ''example.com'')))
     = Some (''DKIM-Signature: a=rsa-sha256; d=Example.COM; s=sel2; h=from:subject; b=REVG'' @ CRLF)
   \<and> map_option pd_raw (projr (chooseDKIMSignature
       (fst (projr (parseEmailRawBuffer
          (''DKIM-Signature: a=rsa-sha1; d=other.example; s=sel1; h=from:subject; b=QUJD'' @ CRLF @
           ''DKIM-Signature: a=rsa-sha256; d=Example.COM; s=sel2; h=from:subject; b=REVG'' @ CRLF @
           ''Subject: Verify 7f3a9c21'' @ CRLF @ CRLF @ ''body''))))
       (Some ''third.example'')))
     = Some (''DKIM-Signature: a=rsa-sha256; d=Example.COM; s=sel2; h=from:subject; b=REVG'' @ CRLF)"
proof -
  let ?msg = "''DKIM-Signature: a=rsa-sha1; d=other.example; s=sel1; h=from:subject; b=QUJD'' @ CRLF @
           ''DKIM-Signature: a=rsa-sha256; d=Example.COM; s=sel2; h=from:subject; b=REVG'' @ CRLF @
           ''Subject: Verify 7f3a9c21'' @ CRLF @ CRLF @ ''body''"
  let ?ps = "fst (projr (parseEmailRawBuffer ?msg))"
  let ?R = "\<lambda>n::string. Some [[''v=DKIM1; p=QUJD'']]"
  let ?V = "\<lambda>(k::string) (d::string) (b::string). (Inr True :: string + bool)"
  have tags: "list_all (\<lambda>p. pd_tags p ''d'' \<noteq> Some TagTrue \<and> pd_tags p ''a'' \<noteq> Some TagTrue) ?ps"
    by code_simp
  have c1: "''example.com'' \<noteq> []" and c2: "''third.example'' \<noteq> []" by simp_all
  have p1: "map_option pd_raw (policyChoice ?ps ''example.com'')
     = Some (''DKIM-Signature: a=rsa-sha256; d=Example.COM; s=sel2; h=from:subject; b=REVG'' @ CRLF)"
    by code_simp
  have p2: "map_option pd_raw (policyChoice ?ps ''third.example'')
     = Some (''DKIM-Signature: a=rsa-sha256; d=Example.COM; s=sel2; h=from:subject; b=REVG'' @ CRLF)"
    by code_simp
  from policy_is_in_chooseDKIMSignature_only [OF tags c1, of ?msg "[]" None None ?R ?V ?msg]
  have e1: "chooseDKIMSignature ?ps (Some ''example.com'') = Inr (policyChoice ?ps ''example.com'')"
    by blast
  from policy_is_in_chooseDKIMSignature_only [OF tags c2, of ?msg "[]" None None ?R ?V ?msg]
  have e2: "chooseDKIMSignature ?ps (Some ''third.example'') = Inr (policyChoice ?ps ''third.example'')"
    by blast
  show ?thesis
    by (simp only: e1 e2 sum.sel p1 p2)
qed

text \<open>
  The claim as stated fails on a message with two signatures of which the second is the
  claimed domain's: the policy picks the second, the script's flow the first, and the
  headers-only flow verifies the first and answers \<open>domain mismatch\<close> for a session that
  claims the second's domain.
\<close>

theorem flows_take_the_first_signature:
  "map_option pd_raw (projr (chooseDKIMSignature
       (fst (projr (parseEmailRawBuffer
          (''DKIM-Signature: a=rsa-sha256; d=other.example; s=sel1; h=from:subject; b=QUJD'' @ CRLF @
           ''DKIM-Signature: a=rsa-sha256; d=example.com; s=sel2; h=from:subject; b=REVG'' @ CRLF @
           ''Subject: Verify 7f3a9c21'' @ CRLF @ CRLF @ ''body''))))
       (Some ''example.com'')))
     = Some (''DKIM-Signature: a=rsa-sha256; d=example.com; s=sel2; h=from:subject; b=REVG'' @ CRLF)
   \<and> map_option pd_raw (fst (snd (projr (parseEmailRawBuffer
          (''DKIM-Signature: a=rsa-sha256; d=other.example; s=sel1; h=from:subject; b=QUJD'' @ CRLF @
           ''DKIM-Signature: a=rsa-sha256; d=example.com; s=sel2; h=from:subject; b=REVG'' @ CRLF @
           ''Subject: Verify 7f3a9c21'' @ CRLF @ CRLF @ ''body'')))))
     = Some (''DKIM-Signature: a=rsa-sha256; d=other.example; s=sel1; h=from:subject; b=QUJD'' @ CRLF)
   \<and> domain (verifyHeadersOnly (\<lambda>n. Some [[''v=DKIM1; p=QUJD'']]) (\<lambda>k d b. Inr True)
          (''DKIM-Signature: a=rsa-sha256; d=other.example; s=sel1; h=from:subject; b=QUJD'' @ CRLF @
           ''DKIM-Signature: a=rsa-sha256; d=example.com; s=sel2; h=from:subject; b=REVG'' @ CRLF @
           ''Subject: Verify 7f3a9c21''))
     = Some ''other.example''
   \<and> POST (\<lambda>i. if i = ''s1'' then Some \<lparr>session_id = ''s1'', session_domain = ''example.com'',
                                          session_nonce = ''7f3a9c21''\<rparr> else None)
        (\<lambda>m. failWith ''dkim library not available'')
        (\<lambda>n. Some [[''v=DKIM1; p=QUJD'']]) (\<lambda>k d b. Inr True) (\<lambda>d. ''0x'' @ d) ''s1''
        (''DKIM-Signature: a=rsa-sha256; d=other.example; s=sel1; h=from:subject; b=QUJD'' @ CRLF @
         ''DKIM-Signature: a=rsa-sha256; d=example.com; s=sel2; h=from:subject; b=REVG'' @ CRLF @
         ''Subject: Verify 7f3a9c21'') []
     = (Failed ''domain mismatch'', 400)"
  by code_simp

section \<open>Selecting the signed headers\<close>

lemma enumerate_filter_positions:
  "map fst (filter (\<lambda>(j, h). P h) (enumerate 0 xs)) = filter (\<lambda>j. P (xs ! j)) [0..<length xs]"
proof (induction xs rule: rev_induct)
  case Nil
  then show ?case by simp
next
  case (snoc x xs)
  have "filter (\<lambda>j. P ((xs @ [x]) ! j)) [0..<length xs] = filter (\<lambda>j. P (xs ! j)) [0..<length xs]"
    by (rule filter_cong) (auto simp: nth_append)
  then show ?case
    using snoc by (simp add: enumerate_append_eq)
qed

lemma indicesByNameFrom_lookup:
  "indicesByNameFrom i rest m n =
     (case map fst (filter (\<lambda>(j, h). toLowerCase (hdr_name h) = n) (enumerate i rest)) of
        [] \<Rightarrow> m n
      | j # js \<Rightarrow> Some ((case m n of None \<Rightarrow> [] | Some a \<Rightarrow> a) @ j # js))"
proof (induction rest arbitrary: i m)
  case Nil
  then show ?case by simp
next
  case (Cons hdr rest)
  show ?case
    by (auto simp: Cons.IH Let_def split: list.splits option.splits)
qed

lemma indicesByName_occ:
  "indicesByNameFrom 0 list Map.empty n = (if occ list n = [] then None else Some (occ list n))"
  unfolding indicesByNameFrom_lookup occ_def
  by (simp add: enumerate_filter_positions split: list.splits)

lemma occ_distinct: "distinct (occ list n)"
  by (simp add: occ_def)

lemma occ_set: "set (occ list n) = {j. j < length list \<and> toLowerCase (hdr_name (list ! j)) = n}"
  by (auto simp: occ_def)

lemma drop_last_of_take:
  assumes "distinct xs" and "0 < k" and "k \<le> length xs"
  shows "filter (\<lambda>i. i \<noteq> xs ! (k - 1)) (take k xs) = take (k - 1) xs"
proof -
  from assms(2,3) have lt: "k - 1 < length xs" by simp
  from assms(2) have k: "k = Suc (k - 1)" by simp
  have tk: "take k xs = take (k - 1) xs @ [xs ! (k - 1)]"
    using take_Suc_conv_app_nth [OF lt] k by simp
  have "xs ! (k - 1) \<notin> set (take (k - 1) xs)"
  proof
    assume "xs ! (k - 1) \<in> set (take (k - 1) xs)"
    then obtain j where j: "j < k - 1" "take (k - 1) xs ! j = xs ! (k - 1)"
      using lt by (auto simp: in_set_conv_nth)
    then have "xs ! j = xs ! (k - 1)" by simp
    with assms(1) j(1) lt show False
      by (simp add: nth_eq_iff_index_eq)
  qed
  then have "filter (\<lambda>i. i \<noteq> xs ! (k - 1)) (take (k - 1) xs) = take (k - 1) xs"
    by (auto simp: filter_id_conv)
  then show ?thesis
    by (simp add: tk)
qed

lemma last_take:
  assumes "0 < k" and "k \<le> length xs"
  shows "last (take k xs) = xs ! (k - 1)"
proof -
  from assms have lt: "k - 1 < length xs" by simp
  from assms(1) have k: "k = Suc (k - 1)" by simp
  have "take k xs = take (k - 1) xs @ [xs ! (k - 1)]"
    using take_Suc_conv_app_nth [OF lt] k by simp
  then show ?thesis by simp
qed

lemma rightmostUnusedIndex_occ:
  "rightmostUnusedIndex (map hdr_name list) used nm =
     (case filter (\<lambda>i. i \<notin> used) (occ list (toLowerCase nm)) of
        [] \<Rightarrow> None
      | y # ys \<Rightarrow> Some (last (y # ys)))"
proof -
  have "filter (\<lambda>i. toLowerCase (map hdr_name list ! i) = toLowerCase nm \<and> i \<notin> used)
          [0..<length list]
      = filter (\<lambda>i. i \<notin> used) (occ list (toLowerCase nm))"
    unfolding occ_def filter_filter
    by (rule filter_cong) auto
  then show ?thesis
    by (simp add: rightmostUnusedIndex_def find_rev_last)
qed

lemma ptrInv_initial:
  "ptrInv list (initialPtr (\<lambda>n. if occ list n = [] then None else Some (occ list n))) {}"
  by (auto simp: ptrInv_def initialPtr_def)

lemma ptrInv_step:
  assumes inv: "ptrInv list ptr used"
    and arr: "occ list n \<noteq> []"
    and k: "0 < k" "k \<le> length (occ list n)"
    and ptr: "ptr n = Some (int k - 1)"
    and unused: "filter (\<lambda>i. i \<notin> used) (occ list n) = take k (occ list n)"
  shows "ptrInv list (ptr(n \<mapsto> int k - 1 - 1)) (insert (occ list n ! (k - 1)) used)"
  unfolding ptrInv_def
proof (intro allI impI)
  fix m
  assume m: "occ list m \<noteq> []"
  let ?a = "occ list n ! (k - 1)"
  let ?ptr' = "ptr(n \<mapsto> int k - 1 - 1)"
  from k have a_in: "?a \<in> set (occ list n)" by simp
  show "\<exists>j\<le>length (occ list m). ?ptr' m = Some (int j - 1)
          \<and> filter (\<lambda>i. i \<notin> insert ?a used) (occ list m) = take j (occ list m)"
  proof (cases "m = n")
    case True
    have "filter (\<lambda>i. i \<notin> insert ?a used) (occ list n)
        = filter (\<lambda>i. i \<noteq> ?a) (filter (\<lambda>i. i \<notin> used) (occ list n))"
      unfolding filter_filter by (rule filter_cong) auto
    also have "\<dots> = filter (\<lambda>i. i \<noteq> ?a) (take k (occ list n))"
      by (simp only: unused)
    also have "\<dots> = take (k - 1) (occ list n)"
      by (rule drop_last_of_take [OF occ_distinct k])
    finally have f: "filter (\<lambda>i. i \<notin> insert ?a used) (occ list m) = take (k - 1) (occ list m)"
      by (simp only: True)
    have le: "k - 1 \<le> length (occ list m)" using k True by simp
    have p: "?ptr' m = Some (int (k - 1) - 1)" using k(1) True by simp
    from le p f show ?thesis by blast
  next
    case False
    from inv m obtain j where
      j: "j \<le> length (occ list m)" "ptr m = Some (int j - 1)"
         "filter (\<lambda>i. i \<notin> used) (occ list m) = take j (occ list m)"
      unfolding ptrInv_def by blast
    from a_in have "toLowerCase (hdr_name (list ! ?a)) = n" by (simp add: occ_set)
    with False have "?a \<notin> set (occ list m)" by (auto simp: occ_set)
    then have "filter (\<lambda>i. i \<notin> insert ?a used) (occ list m) = filter (\<lambda>i. i \<notin> used) (occ list m)"
      by (intro filter_cong refl) auto
    with j(3) have f: "filter (\<lambda>i. i \<notin> insert ?a used) (occ list m) = take j (occ list m)"
      by simp
    have p: "?ptr' m = Some (int j - 1)" using False j(2) by simp
    from j(1) p f show ?thesis by blast
  qed
qed

lemma selectLoop_selectIndices:
  assumes "ptrInv list ptr used"
  shows "selectLoop list (\<lambda>n. if occ list n = [] then None else Some (occ list n)) ptr hList
     = map (\<lambda>i. list ! i) (selectIndices (map hdr_name list) used hList)"
  using assms
proof (induction hList arbitrary: ptr used)
  case Nil
  then show ?case by simp
next
  case (Cons nRaw rest)
  let ?n = "toLowerCase nRaw"
  let ?ibn = "\<lambda>n. if occ list n = [] then None else Some (occ list n)"
  show ?case
  proof (cases "occ list ?n = []")
    case True
    then have "rightmostUnusedIndex (map hdr_name list) used nRaw = None"
      by (simp add: rightmostUnusedIndex_occ)
    with True Cons.IH [OF Cons.prems] show ?thesis by (simp add: Let_def)
  next
    case False
    with Cons.prems obtain k where
      k: "k \<le> length (occ list ?n)" and ptr: "ptr ?n = Some (int k - 1)"
      and unused: "filter (\<lambda>i. i \<notin> used) (occ list ?n) = take k (occ list ?n)"
      unfolding ptrInv_def by blast
    show ?thesis
    proof (cases "k = 0")
      case True
      with unused have "rightmostUnusedIndex (map hdr_name list) used nRaw = None"
        by (simp add: rightmostUnusedIndex_occ)
      with True False ptr Cons.IH [OF Cons.prems] show ?thesis by (simp add: Let_def)
    next
      case k0: False
      then have kpos: "0 < k" by simp
      from kpos k have tk: "take k (occ list ?n) \<noteq> []" using False by auto
      have lst: "last (take k (occ list ?n)) = occ list ?n ! (k - 1)"
        using kpos k by (rule last_take)
      from tk obtain y ys where yys: "take k (occ list ?n) = y # ys"
        by (cases "take k (occ list ?n)") auto
      have "rightmostUnusedIndex (map hdr_name list) used nRaw = Some (last (y # ys))"
        by (simp add: rightmostUnusedIndex_occ unused yys)
      also have "last (y # ys) = occ list ?n ! (k - 1)"
        using lst yys by simp
      finally have r: "rightmostUnusedIndex (map hdr_name list) used nRaw
          = Some (occ list ?n ! (k - 1))" .
      have nat: "nat (int k - 1) = k - 1" by simp
      have nonneg: "\<not> int k - 1 < 0" using kpos by simp
      from ptrInv_step [OF Cons.prems False kpos k ptr unused]
      have inv': "ptrInv list (ptr(?n \<mapsto> int k - 1 - 1)) (insert (occ list ?n ! (k - 1)) used)" .
      from Cons.IH [OF inv'] False ptr r nat nonneg show ?thesis
        by (simp add: Let_def fun_upd_def)
    qed
  qed
qed

lemma selectSignedHeaders_selectIndices:
  "selectSignedHeaders list hList = map (\<lambda>i. list ! i) (selectIndices (map hdr_name list) {} hList)"
proof -
  have ibn: "indicesByNameFrom 0 list Map.empty = (\<lambda>n. if occ list n = [] then None else Some (occ list n))"
    by (rule ext) (rule indicesByName_occ)
  show ?thesis
    unfolding selectSignedHeaders_def Let_def ibn
    by (rule selectLoop_selectIndices) (rule ptrInv_initial)
qed

lemma find_map_option: "find P (map f xs) = map_option f (find (\<lambda>x. P (f x)) xs)"
  by (induction xs) simp_all

lemma find_Some_in:
  assumes "find P xs = Some x"
  shows "x \<in> set xs \<and> P x"
  using assms by (induction xs) (auto split: if_splits)

lemma rightmostUnusedIndex_SomeD:
  assumes "rightmostUnusedIndex names used nm = Some i"
  shows "i < length names" and "i \<notin> used"
    and "toLowerCase (names ! i) = toLowerCase nm"
proof -
  from assms have "i \<in> set (rev [0..<length names])"
    and "toLowerCase (names ! i) = toLowerCase nm \<and> i \<notin> used"
    unfolding rightmostUnusedIndex_def by (auto dest: find_Some_in)
  then show "i < length names" and "i \<notin> used"
    and "toLowerCase (names ! i) = toLowerCase nm"
    by simp_all
qed

lemma rightmostUnusedIndex_is_rightmost:
  assumes "rightmostUnusedIndex names used nm = Some i"
    and "i < j" and "j < length names" and "toLowerCase (names ! j) = toLowerCase nm"
  shows "j \<in> used"
proof (rule ccontr)
  assume nu: "j \<notin> used"
  let ?P = "\<lambda>i. toLowerCase (names ! i) = toLowerCase nm \<and> i \<notin> used"
  from assms(1) have "find ?P (rev [0..<length names]) = Some i"
    by (simp add: rightmostUnusedIndex_def)
  then obtain a where a: "a < length (rev [0..<length names])"
    "i = rev [0..<length names] ! a" "\<forall>b<a. \<not> ?P (rev [0..<length names] ! b)"
    unfolding find_Some_iff by blast
  from a(1,2) have i: "i = length names - Suc a" by (simp add: rev_nth)
  let ?b = "length names - Suc j"
  from assms(2,3) i a(1) have "?b < a" by simp
  moreover from assms(3) have "rev [0..<length names] ! ?b = j" by (simp add: rev_nth)
  ultimately have "\<not> ?P j" using a(3) by auto
  with assms(4) nu show False by simp
qed

lemma rightmostUnusedIndex_None_iff:
  "rightmostUnusedIndex names used nm = None \<longleftrightarrow>
     (\<forall>i<length names. toLowerCase (names ! i) = toLowerCase nm \<longrightarrow> i \<in> used)"
  unfolding rightmostUnusedIndex_def find_None_iff by auto

lemma selectIndices_fresh:
  "distinct (selectIndices names used hList)
   \<and> set (selectIndices names used hList) \<inter> used = {}
   \<and> set (selectIndices names used hList) \<subseteq> {..<length names}"
proof (induction hList arbitrary: used)
  case Nil
  then show ?case by simp
next
  case (Cons nm rest)
  show ?case
  proof (cases "rightmostUnusedIndex names used nm")
    case None
    with Cons [of used] show ?thesis by simp
  next
    case (Some i)
    from rightmostUnusedIndex_SomeD [OF Some] have i: "i < length names" "i \<notin> used" by simp_all
    from Cons [of "insert i used"] i Some show ?thesis by auto
  qed
qed

lemma findRightmostUnused_index:
  assumes "map h_index hs = map int [0..<length hs]"
  shows "findRightmostUnused (int ` used) hs nm =
     map_option (\<lambda>i. hs ! i) (rightmostUnusedIndex (map h_name hs) used nm)"
proof -
  let ?P = "\<lambda>h. toLowerCase (h_name h) = toLowerCase nm \<and> h_index h \<notin> int ` used"
  let ?Q = "\<lambda>i. toLowerCase (map h_name hs ! i) = toLowerCase nm \<and> i \<notin> used"
  have idx: "h_index (hs ! i) = int i" if "i < length hs" for i
  proof -
    from that have "h_index (hs ! i) = map h_index hs ! i" by simp
    also have "\<dots> = int i" using that by (simp add: assms)
    finally show ?thesis .
  qed
  have "rev hs = map (\<lambda>i. hs ! i) (rev [0..<length hs])"
    by (simp add: rev_map [symmetric] map_nth)
  then have "find ?P (rev hs) = map_option (\<lambda>i. hs ! i) (find (\<lambda>i. ?P (hs ! i)) (rev [0..<length hs]))"
    by (simp only: find_map_option)
  also have "find (\<lambda>i. ?P (hs ! i)) (rev [0..<length hs]) = find ?Q (rev [0..<length hs])"
  proof (rule find_cong [OF refl])
    fix i
    assume "i \<in> set (rev [0..<length hs])"
    then have lt: "i < length hs" by simp
    have "int i \<in> int ` used \<longleftrightarrow> i \<in> used" by (auto simp: image_iff)
    with idx [OF lt] lt show "?P (hs ! i) = ?Q i" by simp
  qed
  finally show ?thesis
    by (simp add: findRightmostUnused_def rightmostUnusedIndex_def Let_def)
qed

lemma assembleLoop_selectIndices:
  assumes "map h_index hs = map int [0..<length hs]"
  shows "assembleLoop hs headerMode (int ` used) hList =
     map (\<lambda>i. canonicalizeHeader (hs ! i) headerMode) (selectIndices (map h_name hs) used hList)"
proof (induction hList arbitrary: used)
  case Nil
  then show ?case by simp
next
  case (Cons nm rest)
  show ?case
  proof (cases "rightmostUnusedIndex (map h_name hs) used nm")
    case None
    then show ?thesis
      by (simp add: findRightmostUnused_index [OF assms] Cons)
  next
    case (Some i)
    from rightmostUnusedIndex_SomeD(1) [OF Some] have lt: "i < length hs" by simp
    then have "h_index (hs ! i) = map h_index hs ! i" by simp
    also have "\<dots> = int i" using lt by (simp add: assms)
    finally have idx: "h_index (hs ! i) = int i" .
    have "assembleLoop hs headerMode (insert (int i) (int ` used)) rest =
        map (\<lambda>i. canonicalizeHeader (hs ! i) headerMode)
          (selectIndices (map h_name hs) (insert i used) rest)"
      using Cons [of "insert i used"] by simp
    with Some idx show ?thesis
      by (simp add: findRightmostUnused_index [OF assms])
  qed
qed

lemma parseHeadersLoop_idx_indexed:
  assumes "map h_index headers = map int [0..<length headers]" and "index = int (length headers)"
  shows "map h_index (parseHeadersLoop_idx headers index lines)
     = map int [0..<length (parseHeadersLoop_idx headers index lines)]"
  using assms
proof (induction lines arbitrary: headers index)
  case Nil
  then show ?case by simp
next
  case (Cons line lines)
  show ?case
  proof (cases "line = []")
    case True
    with Cons.IH [OF Cons.prems] show ?thesis by simp
  next
    case ne: False
    show ?thesis
    proof (cases "startsWsp line")
      case True
      show ?thesis
      proof (cases "headers = []")
        case True
        with \<open>startsWsp line\<close> ne Cons.IH [OF Cons.prems] show ?thesis by simp
      next
        case False
        let ?hs = "butlast headers @
              [(last headers)\<lparr>h_value := h_value (last headers) @ '' '' @ trim line,
                               h_raw := h_raw (last headers) @ CRLF @ line\<rparr>]"
        have len: "length ?hs = length headers" using False by simp
        have "map h_index ?hs = map h_index (butlast headers @ [last headers])" by simp
        also have "\<dots> = map h_index headers" using False by simp
        finally have "map h_index ?hs = map int [0..<length ?hs]"
          using Cons.prems(1) len by simp
        moreover have "index = int (length ?hs)" using Cons.prems(2) len by simp
        ultimately have "map h_index (parseHeadersLoop_idx ?hs index lines)
            = map int [0..<length (parseHeadersLoop_idx ?hs index lines)]"
          by (rule Cons.IH)
        with \<open>startsWsp line\<close> ne False show ?thesis by simp
      qed
    next
      case False
      let ?nm = "if CHR '':'' \<notin> set line then [] else beforeFirst (CHR '':'') line"
      let ?v = "if CHR '':'' \<notin> set line then line else trim (afterFirst (CHR '':'') line)"
      let ?hs = "headers @ [\<lparr>h_name = ?nm, h_value = ?v, h_raw = line @ CRLF, h_index = index\<rparr>]"
      have "map h_index ?hs = map int [0..<length ?hs]"
        using Cons.prems by simp
      moreover have "index + 1 = int (length ?hs)" using Cons.prems(2) by simp
      ultimately have "map h_index (parseHeadersLoop_idx ?hs (index + 1) lines)
          = map int [0..<length (parseHeadersLoop_idx ?hs (index + 1) lines)]"
        by (rule Cons.IH)
      with False ne show ?thesis by (simp add: Let_def)
    qed
  qed
qed

lemma parseHeaders_idx_indexed:
  "map h_index (parseHeaders_idx headersRaw) = map int [0..<length (parseHeaders_idx headersRaw)]"
  unfolding parseHeaders_idx_def
  by (rule parseHeadersLoop_idx_indexed) simp_all

lemma signedData_selectIndices:
  "signedData list hList rawDkim =
     join CRLF (map (\<lambda>i. relaxedHeader (HeaderObj (list ! i)))
                  (selectIndices (map hdr_name list) {} hList))
     @ CRLF @ relaxedHeader (withEmptyB rawDkim)"
  by (simp add: signedData_def Let_def selectSignedHeaders_selectIndices comp_def)

lemma assembled_block_selectIndices:
  assumes "map h_index headersList = map int [0..<length headersList]"
    and "assembleCanonicalizedHeaderBlock (Some chosen) headersList = Inr (Some block)"
  shows "\<exists>headerMode dkimLine. headerModeOf (pd_tags chosen) = Inr headerMode \<and>
     block = concat (map (\<lambda>i. canonicalizeHeader (headersList ! i) headerMode)
                       (selectIndices (map h_name headersList) {} (pd_h_list chosen)))
             @ dkimLine"
proof -
  from assms(2) obtain headerMode where
    mode: "headerModeOf (pd_tags chosen) = Inr headerMode"
    unfolding assembleCanonicalizedHeaderBlock_def
    by (cases "headerModeOf (pd_tags chosen)") auto
  have loop: "assembleLoop headersList headerMode {} (pd_h_list chosen) =
      map (\<lambda>i. canonicalizeHeader (headersList ! i) headerMode)
        (selectIndices (map h_name headersList) {} (pd_h_list chosen))"
    using assembleLoop_selectIndices [OF assms(1), of headerMode "{}"] by simp
  from assms(2) mode loop show ?thesis
    unfolding assembleCanonicalizedHeaderBlock_def Let_def
    by auto
qed

text \<open>
  Claim C1. Both implementations select, for each name of \<open>h=\<close> in listed order, the
  rightmost occurrence of that name (names compared in lower case) that is not used yet:
  the selection of \<open>selectSignedHeaders\<close>, and with it the signed data of
  \<open>verifyHeadersOnly\<close>, and the pieces of the script's \<open>assembleCanonicalizedHeaderBlock\<close>
  (on headers that carry their positions as \<open>index\<close>, as the script's parser makes them)
  are the headers at the positions \<open>selectIndices\<close> gives. No position is selected twice,
  a name with no occurrence left adds nothing, and a selected position is the largest
  unused one of its name.
\<close>

theorem signed_headers_are_rightmost_unused:
  assumes "map h_index headersList = map int [0..<length headersList]"
  shows "selectSignedHeaders list hList
           = map (\<lambda>i. list ! i) (selectIndices (map hdr_name list) {} hList)
     \<and> signedData list hList rawDkim
           = join CRLF (map (\<lambda>i. relaxedHeader (HeaderObj (list ! i)))
                          (selectIndices (map hdr_name list) {} hList))
             @ CRLF @ relaxedHeader (withEmptyB rawDkim)
     \<and> assembleLoop headersList headerMode {} hList
           = map (\<lambda>i. canonicalizeHeader (headersList ! i) headerMode)
               (selectIndices (map h_name headersList) {} hList)
     \<and> (assembleCanonicalizedHeaderBlock (Some chosen) headersList = Inr (Some block) \<longrightarrow>
          (\<exists>mode dkimLine.
              block = concat (map (\<lambda>i. canonicalizeHeader (headersList ! i) mode)
                                (selectIndices (map h_name headersList) {} (pd_h_list chosen)))
                      @ dkimLine))
     \<and> distinct (selectIndices names {} hList)
     \<and> (rightmostUnusedIndex names used nm = None \<longleftrightarrow>
          (\<forall>j<length names. toLowerCase (names ! j) = toLowerCase nm \<longrightarrow> j \<in> used))
     \<and> (rightmostUnusedIndex names used nm = Some i \<longrightarrow>
          i < length names \<and> toLowerCase (names ! i) = toLowerCase nm \<and> i \<notin> used
          \<and> (\<forall>j. i < j \<and> j < length names \<and> toLowerCase (names ! j) = toLowerCase nm
                \<longrightarrow> j \<in> used))"
proof (intro conjI)
  show "selectSignedHeaders list hList
      = map (\<lambda>i. list ! i) (selectIndices (map hdr_name list) {} hList)"
    by (rule selectSignedHeaders_selectIndices)
  show "signedData list hList rawDkim
      = join CRLF (map (\<lambda>i. relaxedHeader (HeaderObj (list ! i)))
                     (selectIndices (map hdr_name list) {} hList))
        @ CRLF @ relaxedHeader (withEmptyB rawDkim)"
    by (rule signedData_selectIndices)
  show "assembleLoop headersList headerMode {} hList
      = map (\<lambda>i. canonicalizeHeader (headersList ! i) headerMode)
          (selectIndices (map h_name headersList) {} hList)"
    using assembleLoop_selectIndices [OF assms, of headerMode "{}"] by simp
  show "assembleCanonicalizedHeaderBlock (Some chosen) headersList = Inr (Some block) \<longrightarrow>
      (\<exists>mode dkimLine.
          block = concat (map (\<lambda>i. canonicalizeHeader (headersList ! i) mode)
                            (selectIndices (map h_name headersList) {} (pd_h_list chosen)))
                  @ dkimLine)"
    using assembled_block_selectIndices [OF assms] by blast
  show "distinct (selectIndices names {} hList)"
    using selectIndices_fresh [of names "{}" hList] by blast
  show "rightmostUnusedIndex names used nm = None \<longleftrightarrow>
      (\<forall>j<length names. toLowerCase (names ! j) = toLowerCase nm \<longrightarrow> j \<in> used)"
    by (rule rightmostUnusedIndex_None_iff)
  show "rightmostUnusedIndex names used nm = Some i \<longrightarrow>
      i < length names \<and> toLowerCase (names ! i) = toLowerCase nm \<and> i \<notin> used
      \<and> (\<forall>j. i < j \<and> j < length names \<and> toLowerCase (names ! j) = toLowerCase nm
            \<longrightarrow> j \<in> used)"
    using rightmostUnusedIndex_SomeD [of names used nm i]
      rightmostUnusedIndex_is_rightmost [of names used nm i]
    by blast
qed

theorem signed_headers_are_rightmost_unused_witness:
  "selectIndices [''A'', ''B'', ''A''] {} [''a'', ''a'', ''b''] = [2, 0, 1]
   \<and> selectSignedHeaders [\<lparr>hdr_name = ''A'', hdr_value = ''zero''\<rparr>,
                           \<lparr>hdr_name = ''B'', hdr_value = ''one''\<rparr>,
                           \<lparr>hdr_name = ''A'', hdr_value = ''two''\<rparr>] [''a'', ''a'', ''b'']
       = [\<lparr>hdr_name = ''A'', hdr_value = ''two''\<rparr>,
          \<lparr>hdr_name = ''A'', hdr_value = ''zero''\<rparr>,
          \<lparr>hdr_name = ''B'', hdr_value = ''one''\<rparr>]
   \<and> assembleLoop (parseHeaders_idx (''A: zero'' @ CRLF @ ''B: one'' @ CRLF @ ''A: two'' @ CRLF))
        ''relaxed'' {} [''a'', ''a'', ''b'']
       = [''a:two'' @ CRLF, ''a:zero'' @ CRLF, ''b:one'' @ CRLF]
   \<and> selectIndices [''A'', ''B'', ''A''] {} [''a'', ''a'', ''a'', ''b''] = [2, 0, 1]"
proof -
  let ?list = "[\<lparr>hdr_name = ''A'', hdr_value = ''zero''\<rparr>,
                \<lparr>hdr_name = ''B'', hdr_value = ''one''\<rparr>,
                \<lparr>hdr_name = ''A'', hdr_value = ''two''\<rparr>]"
  let ?hs = "parseHeaders_idx (''A: zero'' @ CRLF @ ''B: one'' @ CRLF @ ''A: two'' @ CRLF)"
  let ?h = "[''a'', ''a'', ''b'']"
  have wf: "map h_index ?hs = map int [0..<length ?hs]" by (rule parseHeaders_idx_indexed)
  note inst = signed_headers_are_rightmost_unused
    [where headersList = ?hs and list = ?list and hList = ?h and headerMode = "''relaxed''", OF wf]
  have names: "map hdr_name ?list = [''A'', ''B'', ''A'']" by simp
  have names': "map h_name ?hs = [''A'', ''B'', ''A'']" by code_simp
  have si: "selectIndices [''A'', ''B'', ''A''] {} ?h = [2, 0, 1]" by code_simp
  have si': "selectIndices [''A'', ''B'', ''A''] {} [''a'', ''a'', ''a'', ''b''] = [2, 0, 1]"
    by code_simp
  from inst have "selectSignedHeaders ?list ?h
      = map (\<lambda>i. ?list ! i) (selectIndices (map hdr_name ?list) {} ?h)" by blast
  also have "\<dots> = map (\<lambda>i. ?list ! i) [2, 0, 1]" by (simp only: names si)
  also have "\<dots> = [\<lparr>hdr_name = ''A'', hdr_value = ''two''\<rparr>,
          \<lparr>hdr_name = ''A'', hdr_value = ''zero''\<rparr>,
          \<lparr>hdr_name = ''B'', hdr_value = ''one''\<rparr>]" by simp
  finally have a: "selectSignedHeaders ?list ?h
      = [\<lparr>hdr_name = ''A'', hdr_value = ''two''\<rparr>,
         \<lparr>hdr_name = ''A'', hdr_value = ''zero''\<rparr>,
         \<lparr>hdr_name = ''B'', hdr_value = ''one''\<rparr>]" .
  from inst have "assembleLoop ?hs ''relaxed'' {} ?h
      = map (\<lambda>i. canonicalizeHeader (?hs ! i) ''relaxed'') (selectIndices (map h_name ?hs) {} ?h)"
    by blast
  also have "\<dots> = map (\<lambda>i. canonicalizeHeader (?hs ! i) ''relaxed'') [2, 0, 1]"
    by (simp only: names' si)
  also have "\<dots> = [''a:two'' @ CRLF, ''a:zero'' @ CRLF, ''b:one'' @ CRLF]" by code_simp
  finally have b: "assembleLoop ?hs ''relaxed'' {} ?h
      = [''a:two'' @ CRLF, ''a:zero'' @ CRLF, ''b:one'' @ CRLF]" .
  from si a b si' show ?thesis by blast
qed

end
